theory Spec2Isabelle
  imports Complex_Main
begin

section \<open>Guarantee cost calculator: the calculation block of APG\_Kenya1.py\<close>

text \<open>
  The script reads ten widget values, runs one straight-line block of arithmetic
  (lines 51 to 84) through the helper \<^verbatim>\<open>calc_costs\<close> (lines 9 to 13) and shows
  the results. This theory embeds that block.

  Numbers. The contract value, the percentages and the bank fee rate are Python floats;
  the month counts and the number of phases are Python ints (\<^verbatim>\<open>st.number_input\<close>
  with integer bounds). A Python float is an IEEE 754 binary64 number: a finite one is
  modelled as the real number it denotes, beside the two infinities and the
  not-a-number. Every float operation returns the exact result rounded to nearest, ties
  to even: to 53 significant bits in the normal range, to a multiple of
  \<open>2 powi (- 1074)\<close> below \<open>2 powi (- 1022)\<close> (the subnormal numbers, down to zero), and
  to an infinity from \<open>2 powi 1024\<close> on. The two zeros of binary64 are not told apart:
  Python raises on a division by either, and no other operation of the block reads the
  sign of a zero. Ints are \<^typ>\<open>int\<close>; Python converts an int to a float where
  it meets one, and divides two ints to the correctly rounded quotient.

  Errors. A float operation other than division never raises. The true division by
  \<^verbatim>\<open>num_phases\<close> on line 54 raises \<^verbatim>\<open>ZeroDivisionError\<close> when the divisor is zero;
  the other divisions are by the literal 12. The conversion of an int to a float and the
  division of two ints raise \<^verbatim>\<open>OverflowError\<close> when the result is beyond the floats.
\<close>

subsection \<open>Rounding to binary64\<close>

text \<open>The integer nearest to a real, the even one of the two when it lies half way.\<close>

definition round_half_even :: "real \<Rightarrow> int" where
  "round_half_even x =
     (let f = \<lfloor>x\<rfloor>; d = x - of_int f
      in if d < 1 / 2 then f else if 1 / 2 < d then f + 1 else if even f then f else f + 1)"

text \<open>The binary exponent \<open>e\<close> of a nonzero real: \<open>2 ^ e \<le> \<bar>x\<bar> < 2 ^ (e + 1)\<close>.\<close>

function float_exponent :: "real \<Rightarrow> int" where
  "float_exponent x =
     (if x = 0 then 0
      else if \<bar>x\<bar> < 1 then float_exponent (2 * x) - 1
      else if 2 \<le> \<bar>x\<bar> then float_exponent (x / 2) + 1
      else 0)"
  by pat_completeness auto

termination float_exponent
proof (relation "measure (\<lambda>x. nat \<bar>\<lfloor>log 2 \<bar>x\<bar>\<rfloor>\<bar>)")
  show "wf (measure (\<lambda>x. nat \<bar>\<lfloor>log 2 \<bar>x\<bar>\<rfloor>\<bar>))" by simp
next
  fix x :: real
  assume x: "x \<noteq> 0" and small: "\<bar>x\<bar> < 1"
  from x have "log 2 \<bar>2 * x\<bar> = log 2 \<bar>x\<bar> + 1"
    by (simp add: abs_mult log_mult)
  then have up: "\<lfloor>log 2 \<bar>2 * x\<bar>\<rfloor> = \<lfloor>log 2 \<bar>x\<bar>\<rfloor> + 1" by simp
  from x small have "log 2 \<bar>x\<bar> < 0" by simp
  then have "\<lfloor>log 2 \<bar>x\<bar>\<rfloor> < 0" by (simp add: floor_less_iff)
  then have "nat \<bar>\<lfloor>log 2 \<bar>x\<bar>\<rfloor> + 1\<bar> < nat \<bar>\<lfloor>log 2 \<bar>x\<bar>\<rfloor>\<bar>" by arith
  with up show "(2 * x, x) \<in> measure (\<lambda>x. nat \<bar>\<lfloor>log 2 \<bar>x\<bar>\<rfloor>\<bar>)" by simp
next
  fix x :: real
  assume x: "x \<noteq> 0" and big: "2 \<le> \<bar>x\<bar>"
  from x have "log 2 \<bar>x / 2\<bar> = log 2 \<bar>x\<bar> - 1"
    by (simp add: log_divide)
  then have down: "\<lfloor>log 2 \<bar>x / 2\<bar>\<rfloor> = \<lfloor>log 2 \<bar>x\<bar>\<rfloor> - 1" by simp
  from big have "log 2 2 \<le> log 2 \<bar>x\<bar>" by (subst log_le_cancel_iff) simp_all
  then have "1 \<le> \<lfloor>log 2 \<bar>x\<bar>\<rfloor>" by (simp add: le_floor_iff)
  then have "nat \<bar>\<lfloor>log 2 \<bar>x\<bar>\<rfloor> - 1\<bar> < nat \<bar>\<lfloor>log 2 \<bar>x\<bar>\<rfloor>\<bar>" by arith
  with down show "(x / 2, x) \<in> measure (\<lambda>x. nat \<bar>\<lfloor>log 2 \<bar>x\<bar>\<rfloor>\<bar>)" by simp
qed

declare float_exponent.simps [simp del]

text \<open>
  Rounding to 53 significant bits with no bound on the exponent: the real is scaled so
  that its integer part has 53 bits, rounded to an integer, and scaled back.
\<close>

definition round53 :: "real \<Rightarrow> real" where
  "round53 x =
     (if x = 0 then 0
      else let e = float_exponent x - 52
           in real_of_int (round_half_even (x / 2 powi e)) * 2 powi e)"

text \<open>A Python float: a finite binary64 number, an infinity, or the not-a-number.\<close>

datatype pyfloat = Finite real | PosInf | NegInf | NaN

text \<open>The exponents of the smallest and of the largest normal binary64 numbers.\<close>

definition emin :: int where
  "emin = - 1022"

definition emax :: int where
  "emax = 1023"

text \<open>
  The binary64 number nearest to a real. Below the smallest normal number the floats are
  the multiples of \<open>2 powi (emin - 52)\<close>, and a real nearer to zero than half of that
  rounds to zero. A real whose rounding to 53 bits reaches \<open>2 powi (emax + 1)\<close> rounds to
  the infinity of its sign.
\<close>

definition round64 :: "real \<Rightarrow> pyfloat" where
  "round64 x =
     (if \<bar>x\<bar> < 2 powi emin
      then Finite (real_of_int (round_half_even (x / 2 powi (emin - 52))) * 2 powi (emin - 52))
      else if 2 powi (emax + 1) \<le> \<bar>round53 x\<bar> then (if 0 < x then PosInf else NegInf)
      else Finite (round53 x))"

text \<open>The reals that are finite binary64 numbers: rounding leaves them as they are.\<close>

definition is_float :: "real \<Rightarrow> bool" where
  "is_float x \<longleftrightarrow> round64 x = Finite x"

subsection \<open>Data\<close>

text \<open>The two exceptions that Python's arithmetic on floats and ints can raise.\<close>

datatype py_error = ZeroDivisionError | OverflowError

text \<open>The ten values of the input section (lines 33 to 45), percentages already divided by 100.\<close>

record InputParameters =
  total_contract_value :: real
  advance_payment_percent_orig :: real
  pg_percent_orig :: real
  construction_duration_orig :: int
  dlp_duration_orig :: int
  num_phases :: int
  pg_percent_phased :: real
  construction_duration_phased :: int
  dlp_duration_phased :: int
  bank_fee_rate :: real

text \<open>The variables the calculation block assigns (lines 51 to 84), under their names in the script.\<close>

record CalculationResult =
  apg_value_orig :: pyfloat
  pg_value_orig :: pyfloat
  phase_contract_value :: pyfloat
  apg_value_phased :: pyfloat
  pg_value_phased :: pyfloat
  apg_duration_orig :: pyfloat
  pg_duration_orig :: pyfloat
  apg_duration_phased :: pyfloat
  pg_duration_phased :: pyfloat
  apg_annual_cost_orig :: pyfloat
  apg_total_cost_orig :: pyfloat
  pg_annual_cost_orig :: pyfloat
  pg_total_cost_orig :: pyfloat
  total_cost_orig :: pyfloat
  apg_annual_cost_phased :: pyfloat
  apg_cost_per_phase :: pyfloat
  pg_annual_cost_phased :: pyfloat
  pg_cost_per_phase :: pyfloat
  apg_total_cost_phased :: pyfloat
  pg_total_cost_phased :: pyfloat
  total_cost_phased :: pyfloat
  apg_savings :: pyfloat
  pg_savings :: pyfloat
  total_savings :: pyfloat
  credit_line_orig :: pyfloat
  credit_line_phased :: pyfloat
  credit_line_savings :: pyfloat

subsection \<open>Python's arithmetic on floats and ints\<close>

text \<open>The sign of a float, and \<^verbatim>\<open>-a\<close>.\<close>

fun float_sgn :: "pyfloat \<Rightarrow> real" where
  "float_sgn (Finite a) = sgn a"
| "float_sgn PosInf = 1"
| "float_sgn NegInf = - 1"
| "float_sgn NaN = 0"

fun float_neg :: "pyfloat \<Rightarrow> pyfloat" where
  "float_neg (Finite a) = Finite (- a)"
| "float_neg PosInf = NegInf"
| "float_neg NegInf = PosInf"
| "float_neg NaN = NaN"

text \<open>
  \<^verbatim>\<open>a * b\<close>, \<^verbatim>\<open>a + b\<close> and \<^verbatim>\<open>a - b\<close> on floats. None of them raises: a result
  beyond the floats is an infinity, infinity times zero and the difference of two equal
  infinities are the not-a-number, and the not-a-number goes through every operation.
\<close>

fun float_mul :: "pyfloat \<Rightarrow> pyfloat \<Rightarrow> pyfloat" where
  "float_mul (Finite a) (Finite b) = round64 (a * b)"
| "float_mul NaN y = NaN"
| "float_mul x NaN = NaN"
| "float_mul x y =
     (if float_sgn x * float_sgn y = 0 then NaN
      else if 0 < float_sgn x * float_sgn y then PosInf else NegInf)"

fun float_add :: "pyfloat \<Rightarrow> pyfloat \<Rightarrow> pyfloat" where
  "float_add (Finite a) (Finite b) = round64 (a + b)"
| "float_add NaN y = NaN"
| "float_add x NaN = NaN"
| "float_add PosInf NegInf = NaN"
| "float_add NegInf PosInf = NaN"
| "float_add PosInf y = PosInf"
| "float_add x PosInf = PosInf"
| "float_add NegInf y = NegInf"
| "float_add x NegInf = NegInf"

definition float_sub :: "pyfloat \<Rightarrow> pyfloat \<Rightarrow> pyfloat" where
  "float_sub x y = float_add x (float_neg y)"

text \<open>\<^verbatim>\<open>a / b\<close> on floats: it raises on a zero divisor, whatever the dividend.\<close>

fun float_div :: "pyfloat \<Rightarrow> pyfloat \<Rightarrow> pyfloat" where
  "float_div (Finite a) (Finite b) = round64 (a / b)"
| "float_div NaN y = NaN"
| "float_div x NaN = NaN"
| "float_div (Finite a) y = Finite 0"
| "float_div x (Finite b) = (if 0 < float_sgn x * sgn b then PosInf else NegInf)"
| "float_div x y = NaN"

definition float_truediv :: "pyfloat \<Rightarrow> pyfloat \<Rightarrow> py_error + pyfloat" where
  "float_truediv x y = (if y = Finite 0 then Inl ZeroDivisionError else Inr (float_div x y))"

text \<open>
  The float an int becomes next to a float operand, and \<^verbatim>\<open>a / b\<close> on two ints. Both
  raise \<^verbatim>\<open>OverflowError\<close> instead of returning an infinity.
\<close>

definition float_of_int :: "int \<Rightarrow> py_error + pyfloat" where
  "float_of_int n =
     (case round64 (real_of_int n) of Finite y \<Rightarrow> Inr (Finite y) | _ \<Rightarrow> Inl OverflowError)"

definition int_truediv :: "int \<Rightarrow> int \<Rightarrow> py_error + pyfloat" where
  "int_truediv a b =
     (if b = 0 then Inl ZeroDivisionError
      else case round64 (real_of_int a / real_of_int b) of
             Finite y \<Rightarrow> Inr (Finite y)
           | _ \<Rightarrow> Inl OverflowError)"

text \<open>Sequencing: an exception ends the script, a value goes on to the next statement.\<close>

definition and_then :: "py_error + 'a \<Rightarrow> ('a \<Rightarrow> py_error + 'b) \<Rightarrow> py_error + 'b" where
  "and_then m f = (case m of Inl e \<Rightarrow> Inl e | Inr v \<Rightarrow> f v)"

text \<open>\<^verbatim>\<open>a / n\<close> and \<^verbatim>\<open>a * n\<close> on a float and an int: the int is converted first.\<close>

definition float_truediv_int :: "pyfloat \<Rightarrow> int \<Rightarrow> py_error + pyfloat" where
  "float_truediv_int x n = and_then (float_of_int n) (float_truediv x)"

definition float_mul_int :: "pyfloat \<Rightarrow> int \<Rightarrow> py_error + pyfloat" where
  "float_mul_int x n = and_then (float_of_int n) (\<lambda>y. Inr (float_mul x y))"

text \<open>\<^verbatim>\<open>a <= b\<close> and \<^verbatim>\<open>a < b\<close> on floats: false whenever an operand is the not-a-number.\<close>

fun float_le :: "pyfloat \<Rightarrow> pyfloat \<Rightarrow> bool" where
  "float_le (Finite a) (Finite b) \<longleftrightarrow> a \<le> b"
| "float_le NaN y \<longleftrightarrow> False"
| "float_le x NaN \<longleftrightarrow> False"
| "float_le NegInf y \<longleftrightarrow> True"
| "float_le x PosInf \<longleftrightarrow> True"
| "float_le x y \<longleftrightarrow> False"

fun float_lt :: "pyfloat \<Rightarrow> pyfloat \<Rightarrow> bool" where
  "float_lt (Finite a) (Finite b) \<longleftrightarrow> a < b"
| "float_lt NaN y \<longleftrightarrow> False"
| "float_lt x NaN \<longleftrightarrow> False"
| "float_lt PosInf y \<longleftrightarrow> False"
| "float_lt x NegInf \<longleftrightarrow> False"
| "float_lt x y \<longleftrightarrow> True"

subsection \<open>The program\<close>

text \<open>\<^verbatim>\<open>calc_costs(value, rate, duration_years)\<close>, lines 9 to 13.\<close>

definition calc_costs :: "pyfloat \<Rightarrow> pyfloat \<Rightarrow> pyfloat \<Rightarrow> pyfloat \<times> pyfloat" where
  "calc_costs value rate duration_years =
     (let annual = float_mul value rate;
          total = float_mul annual duration_years
      in (annual, total))"

text \<open>
  The calculation block, lines 51 to 84, statement by statement. The script has no
  function around it; \<open>compute\<close> is the name the specification gives it.
\<close>

definition compute :: "InputParameters \<Rightarrow> py_error + CalculationResult" where
  "compute p =
     (let apg_value_orig =
            float_mul (Finite (total_contract_value p)) (Finite (advance_payment_percent_orig p));
          pg_value_orig =
            float_mul (Finite (total_contract_value p)) (Finite (pg_percent_orig p))
      in
      and_then (float_truediv_int (Finite (total_contract_value p)) (num_phases p))
        (\<lambda>phase_contract_value.
      let apg_value_phased =
            float_mul phase_contract_value (Finite (advance_payment_percent_orig p));
          pg_value_phased = float_mul phase_contract_value (Finite (pg_percent_phased p))
      in
      and_then (int_truediv (construction_duration_orig p) 12) (\<lambda>apg_duration_orig.
      and_then (int_truediv (construction_duration_orig p + dlp_duration_orig p) 12)
        (\<lambda>pg_duration_orig.
      and_then (int_truediv (construction_duration_phased p) 12) (\<lambda>apg_duration_phased.
      and_then (int_truediv (construction_duration_phased p + dlp_duration_phased p) 12)
        (\<lambda>pg_duration_phased.
      let (apg_annual_cost_orig, apg_total_cost_orig) =
            calc_costs apg_value_orig (Finite (bank_fee_rate p)) apg_duration_orig;
          (pg_annual_cost_orig, pg_total_cost_orig) =
            calc_costs pg_value_orig (Finite (bank_fee_rate p)) pg_duration_orig;
          total_cost_orig = float_add apg_total_cost_orig pg_total_cost_orig;
          (apg_annual_cost_phased, apg_cost_per_phase) =
            calc_costs apg_value_phased (Finite (bank_fee_rate p)) apg_duration_phased;
          (pg_annual_cost_phased, pg_cost_per_phase) =
            calc_costs pg_value_phased (Finite (bank_fee_rate p)) pg_duration_phased
      in
      and_then (float_mul_int apg_cost_per_phase (num_phases p)) (\<lambda>apg_total_cost_phased.
      and_then (float_mul_int pg_cost_per_phase (num_phases p)) (\<lambda>pg_total_cost_phased.
      let total_cost_phased = float_add apg_total_cost_phased pg_total_cost_phased;
          apg_savings = float_sub apg_total_cost_orig apg_total_cost_phased;
          pg_savings = float_sub pg_total_cost_orig pg_total_cost_phased;
          total_savings = float_sub total_cost_orig total_cost_phased;
          credit_line_orig = apg_value_orig;
          credit_line_phased = float_add apg_value_phased pg_value_phased;
          credit_line_savings = float_sub credit_line_orig credit_line_phased
      in Inr \<lparr>apg_value_orig = apg_value_orig,
              pg_value_orig = pg_value_orig,
              phase_contract_value = phase_contract_value,
              apg_value_phased = apg_value_phased,
              pg_value_phased = pg_value_phased,
              apg_duration_orig = apg_duration_orig,
              pg_duration_orig = pg_duration_orig,
              apg_duration_phased = apg_duration_phased,
              pg_duration_phased = pg_duration_phased,
              apg_annual_cost_orig = apg_annual_cost_orig,
              apg_total_cost_orig = apg_total_cost_orig,
              pg_annual_cost_orig = pg_annual_cost_orig,
              pg_total_cost_orig = pg_total_cost_orig,
              total_cost_orig = total_cost_orig,
              apg_annual_cost_phased = apg_annual_cost_phased,
              apg_cost_per_phase = apg_cost_per_phase,
              pg_annual_cost_phased = pg_annual_cost_phased,
              pg_cost_per_phase = pg_cost_per_phase,
              apg_total_cost_phased = apg_total_cost_phased,
              pg_total_cost_phased = pg_total_cost_phased,
              total_cost_phased = total_cost_phased,
              apg_savings = apg_savings,
              pg_savings = pg_savings,
              total_savings = total_savings,
              credit_line_orig = credit_line_orig,
              credit_line_phased = credit_line_phased,
              credit_line_savings = credit_line_savings\<rparr>))))))))"

subsection \<open>Inputs\<close>

text \<open>
  The declared ranges of the ten inputs. They are the bounds of the script's widgets,
  but for the contract value, whose widget also admits 0.
\<close>

definition valid_input :: "InputParameters \<Rightarrow> bool" where
  "valid_input p \<longleftrightarrow>
     0 < total_contract_value p \<and>
     0 \<le> advance_payment_percent_orig p \<and> advance_payment_percent_orig p \<le> 1 \<and>
     0 \<le> pg_percent_orig p \<and> pg_percent_orig p \<le> 1 \<and>
     1 \<le> construction_duration_orig p \<and> construction_duration_orig p \<le> 24 \<and>
     0 \<le> dlp_duration_orig p \<and> dlp_duration_orig p \<le> 12 \<and>
     1 \<le> num_phases p \<and> num_phases p \<le> 5 \<and>
     0 \<le> pg_percent_phased p \<and> pg_percent_phased p \<le> 1 \<and>
     1 \<le> construction_duration_phased p \<and> construction_duration_phased p \<le> 6 \<and>
     0 \<le> dlp_duration_phased p \<and> dlp_duration_phased p \<le> 12 \<and>
     1 / 1000 \<le> bank_fee_rate p \<and> bank_fee_rate p \<le> 1 / 10"

text \<open>
  The concrete scenario of the specification's testable properties. The percentages and
  the rate are the floats the input section computes from the widget values, as in
  \<^verbatim>\<open>40.0 / 100\<close> (\<open>scenario_percentages\<close> below).
\<close>

definition scenario :: InputParameters where
  "scenario =
     \<lparr>total_contract_value = 320000000,
      advance_payment_percent_orig = round53 (40 / 100),
      pg_percent_orig = round53 (30 / 100),
      construction_duration_orig = 12,
      dlp_duration_orig = 6,
      num_phases = 4,
      pg_percent_phased = round53 (10 / 100),
      construction_duration_phased = 3,
      dlp_duration_phased = 6,
      bank_fee_rate = round53 (1 / 100)\<rparr>"

subsection \<open>Magnitudes\<close>

text \<open>
  A real that is zero or lies between two powers of two. With \<open>l\<close> and \<open>h\<close> well
  inside the exponents of binary64 it bounds a quantity away from the subnormal numbers
  and from overflow.
\<close>

definition in_range :: "int \<Rightarrow> int \<Rightarrow> real \<Rightarrow> bool" where
  "in_range l h x \<longleftrightarrow> x = 0 \<or> (2 powi l \<le> x \<and> x \<le> 2 powi h)"

text \<open>
  Two floats of which the second is \<open>k\<close> times the first, both finite, the first of a
  bounded magnitude; and the case \<open>k = 2\<close> with a bound on the absolute value only.
\<close>

definition scaled :: "real \<Rightarrow> int \<Rightarrow> int \<Rightarrow> pyfloat \<Rightarrow> pyfloat \<Rightarrow> bool" where
  "scaled k l h a b \<longleftrightarrow>
     (\<exists>y. a = Finite y \<and> b = Finite (k * y) \<and> in_range l h y \<and> is_float y \<and> is_float (k * y))"

definition doubled :: "int \<Rightarrow> pyfloat \<Rightarrow> pyfloat \<Rightarrow> bool" where
  "doubled h a b \<longleftrightarrow>
     (\<exists>y. a = Finite y \<and> b = Finite (2 * y) \<and> \<bar>y\<bar> \<le> 2 powi h \<and> is_float y)"
section \<open>Rounding to 53 bits\<close>

subsection \<open>Powers of two and the exponent\<close>

lemma pow2_add: "(2::real) powi (a + b) = 2 powi a * 2 powi b"
  by (simp add: power_int_add)

lemma pow2_diff: "(2::real) powi (a - b) = 2 powi a / 2 powi b"
  by (simp add: power_int_diff)

lemma pow2_pos: "0 < (2::real) powi e"
  by (simp add: zero_less_power_int)

lemma float_exponent_bounds:
  "x \<noteq> 0 \<Longrightarrow> 2 powi float_exponent x \<le> \<bar>x\<bar> \<and> \<bar>x\<bar> < 2 powi (float_exponent x + 1)"
proof (induction x rule: float_exponent.induct)
  case (1 x)
  show ?case
  proof (cases "\<bar>x\<bar> < 1")
    case True
    with "1.prems" have e: "float_exponent x = float_exponent (2 * x) - 1"
      by (subst float_exponent.simps) simp
    from "1.IH"(1) [OF "1.prems" True] "1.prems"
    have "2 powi float_exponent (2 * x) \<le> \<bar>2 * x\<bar>"
      and "\<bar>2 * x\<bar> < 2 powi (float_exponent (2 * x) + 1)" by simp_all
    then show ?thesis unfolding e by (simp add: pow2_add pow2_diff abs_mult)
  next
    case False
    show ?thesis
    proof (cases "2 \<le> \<bar>x\<bar>")
      case True
      with False "1.prems" have e: "float_exponent x = float_exponent (x / 2) + 1"
        by (subst float_exponent.simps) simp
      from "1.IH"(2) [OF "1.prems" False True] "1.prems"
      have "2 powi float_exponent (x / 2) \<le> \<bar>x / 2\<bar>"
        and "\<bar>x / 2\<bar> < 2 powi (float_exponent (x / 2) + 1)" by simp_all
      then show ?thesis unfolding e by (simp add: pow2_add)
    next
      case big: False
      with False "1.prems" have e: "float_exponent x = 0"
        by (subst float_exponent.simps) simp
      from False big show ?thesis unfolding e by simp
    qed
  qed
qed

lemma pow2_bounds_unique:
  fixes a :: real
  assumes "2 powi e \<le> a" and "a < 2 powi (e + 1)"
    and "2 powi e' \<le> a" and "a < 2 powi (e' + 1)"
  shows "e = e'"
proof (rule ccontr)
  assume "e \<noteq> e'"
  then consider "e + 1 \<le> e'" | "e' + 1 \<le> e" by linarith
  then show False
  proof cases
    case 1
    then have "(2::real) powi (e + 1) \<le> 2 powi e'" by (intro power_int_increasing) simp_all
    with assms show False by linarith
  next
    case 2
    then have "(2::real) powi (e' + 1) \<le> 2 powi e" by (intro power_int_increasing) simp_all
    with assms show False by linarith
  qed
qed

lemma float_exponent_eqI:
  assumes "2 powi e \<le> \<bar>x\<bar>" and "\<bar>x\<bar> < 2 powi (e + 1)"
  shows "float_exponent x = e"
proof -
  from assms(1) pow2_pos [of e] have "0 < \<bar>x\<bar>" by linarith
  then have "x \<noteq> 0" by simp
  from float_exponent_bounds [OF this] assms show ?thesis
    by (intro pow2_bounds_unique [of _ "\<bar>x\<bar>"]) simp_all
qed

lemma float_exponent_double: "x \<noteq> 0 \<Longrightarrow> float_exponent (2 * x) = float_exponent x + 1"
proof -
  assume "x \<noteq> 0"
  from float_exponent_bounds [OF this] show ?thesis
    by (intro float_exponent_eqI) (simp_all add: pow2_add abs_mult)
qed

lemma pow2_less_imp_less:
  assumes "(2::real) powi a < 2 powi b"
  shows "a < b"
proof (rule ccontr)
  assume "\<not> a < b"
  then have "b \<le> a" by simp
  then have "(2::real) powi b \<le> 2 powi a" by (intro power_int_increasing) simp_all
  with assms show False by linarith
qed

subsection \<open>Rounding to an integer\<close>

lemma round_half_even_ge:
  assumes "real_of_int k \<le> x"
  shows "k \<le> round_half_even x"
proof -
  from assms have "k \<le> \<lfloor>x\<rfloor>" by (simp add: le_floor_iff)
  then show ?thesis by (simp add: round_half_even_def Let_def)
qed

lemma round_half_even_le:
  assumes "x \<le> real_of_int k"
  shows "round_half_even x \<le> k"
proof (cases "x = real_of_int k")
  case True
  then show ?thesis by (simp add: round_half_even_def Let_def)
next
  case False
  with assms have "x < real_of_int k" by simp
  then have "\<lfloor>x\<rfloor> < k" by (simp add: floor_less_iff)
  then show ?thesis by (simp add: round_half_even_def Let_def)
qed

lemma round_half_even_of_int: "round_half_even (real_of_int k) = k"
  by (simp add: round_half_even_def Let_def)

lemma round_half_even_mantissa:
  assumes "2 ^ 52 \<le> \<bar>m\<bar>" and "\<bar>m\<bar> < 2 ^ 53"
  shows "\<bar>round_half_even m\<bar> \<le> 2 ^ 53"
proof -
  have "real_of_int (- (2 ^ 53)) \<le> m" using assms(2) by simp
  then have "- (2 ^ 53) \<le> round_half_even m" by (rule round_half_even_ge)
  moreover have "m \<le> real_of_int (2 ^ 53)" using assms(2) by simp
  then have "round_half_even m \<le> 2 ^ 53" by (rule round_half_even_le)
  ultimately show ?thesis by simp
qed

subsection \<open>Sign, scaling by two, exactness\<close>

lemma round53_double: "round53 (2 * x) = 2 * round53 x"
proof (cases "x = 0")
  case True
  then show ?thesis by (simp add: round53_def)
next
  case False
  have "2 * x / 2 powi (float_exponent x + 1 - 52) = x / 2 powi (float_exponent x - 52)"
    by (simp add: pow2_add pow2_diff)
  moreover have "(2::real) powi (float_exponent x + 1 - 52) = 2 * 2 powi (float_exponent x - 52)"
    by (simp add: pow2_add pow2_diff)
  ultimately show ?thesis
    using False by (simp add: round53_def float_exponent_double Let_def)
qed

lemma round53_half: "round53 (x / 2) = round53 x / 2"
  using round53_double [of "x / 2"] by simp

lemma round53_quarter: "round53 (x / 4) = round53 x / 4"
  using round53_half [of "x / 2"] round53_half [of x] by simp

lemma round53_nonneg: "0 \<le> x \<Longrightarrow> 0 \<le> round53 x"
proof -
  assume x: "0 \<le> x"
  have "0 \<le> round_half_even (x / 2 powi (float_exponent x - 52))"
    using x pow2_pos [of "float_exponent x - 52"]
    by (intro round_half_even_ge) simp
  then show ?thesis
    using pow2_pos [of "float_exponent x - 52"] by (simp add: round53_def Let_def)
qed

lemma round53_pos: "0 < x \<Longrightarrow> 0 < round53 x"
proof -
  assume x: "0 < x"
  define e where "e = float_exponent x - 52"
  from x have nz: "x \<noteq> 0" by simp
  from float_exponent_bounds [OF nz] x
  have "2 powi (e + 52) \<le> x" by (simp add: e_def)
  then have "real_of_int (2 ^ 52) \<le> x / 2 powi e"
    using pow2_pos [of e] by (simp add: pow2_add field_simps)
  then have "2 ^ 52 \<le> round_half_even (x / 2 powi e)" by (rule round_half_even_ge)
  then have "0 < round_half_even (x / 2 powi e)" by simp
  then show ?thesis
    using nz pow2_pos [of e] by (simp add: round53_def Let_def e_def)
qed

lemma round53_neg: "x < 0 \<Longrightarrow> round53 x < 0"
proof -
  assume x: "x < 0"
  define e where "e = float_exponent x - 52"
  from x have nz: "x \<noteq> 0" by simp
  from float_exponent_bounds [OF nz] x
  have "2 powi (e + 52) \<le> - x" by (simp add: e_def)
  then have "x / 2 powi e \<le> real_of_int (- (2 ^ 52))"
    using pow2_pos [of e] by (simp add: pow2_add field_simps)
  then have "round_half_even (x / 2 powi e) \<le> - (2 ^ 52)" by (rule round_half_even_le)
  then have "round_half_even (x / 2 powi e) < 0" by simp
  then show ?thesis
    using nz pow2_pos [of e] by (simp add: round53_def Let_def e_def mult_neg_pos)
qed

lemma round53_eq_0_iff: "round53 x = 0 \<longleftrightarrow> x = 0"
proof
  assume "round53 x = 0"
  with round53_pos [of x] round53_neg [of x] show "x = 0"
    by (cases "0 < x"; cases "x < 0") simp_all
next
  assume "x = 0"
  then show "round53 x = 0" by (simp add: round53_def)
qed

lemma round53_int_scaled:
  assumes "d \<ge> 0" and x: "x = real_of_int M * 2 powi e" and "float_exponent x - 52 = e - d"
    and "x \<noteq> 0"
  shows "round53 x = x"
proof -
  have p: "(2::real) powi d = 2 ^ nat d" using assms(1) by (simp add: power_int_nonneg_exp)
  have "x / 2 powi (e - d) = real_of_int M * 2 powi d"
    unfolding x by (simp add: pow2_diff)
  also have "\<dots> = real_of_int (M * 2 ^ nat d)" by (simp add: p)
  finally have m: "x / 2 powi (e - d) = real_of_int (M * 2 ^ nat d)" .
  have "round_half_even (x / 2 powi (e - d)) = M * 2 ^ nat d"
    by (simp only: m round_half_even_of_int)
  then have "round53 x = real_of_int (M * 2 ^ nat d) * 2 powi (e - d)"
    unfolding round53_def Let_def assms(3) using assms(4) by (simp only: if_False)
  also have "\<dots> = real_of_int M * (2 powi d * 2 powi (e - d))" by (simp add: p)
  also have "2 powi d * 2 powi (e - d) = (2::real) powi e"
    using pow2_add [of d "e - d"] by simp
  finally show ?thesis by (simp add: x)
qed

lemma round53_exact:
  assumes x: "x = real_of_int M * 2 powi e" and M: "\<bar>M\<bar> \<le> 2 ^ 53"
  shows "round53 x = x"
proof (cases "x = 0")
  case True
  then show ?thesis by (simp add: round53_def)
next
  case False
  then have M0: "M \<noteq> 0" using x by auto
  have ax: "\<bar>x\<bar> = real_of_int \<bar>M\<bar> * 2 powi e"
    using pow2_pos [of e] by (simp add: x abs_mult)
  show ?thesis
  proof (cases "\<bar>M\<bar> = 2 ^ 53")
    case True
    then have ax': "\<bar>x\<bar> = 2 powi (e + 53)" by (simp add: ax pow2_add)
    have "float_exponent x = e + 53"
      by (rule float_exponent_eqI) (simp_all add: ax' pow2_add)
    then have E: "float_exponent x - 52 = (e + 1) - 0" by simp
    from True have "M = 2 * 2 ^ 52 \<or> M = 2 * - (2 ^ 52)" by (simp add: abs_if split: if_splits)
    then obtain K where K: "M = 2 * K" by blast
    have "x = real_of_int K * 2 powi (e + 1)" by (simp add: x K pow2_add)
    from round53_int_scaled [OF _ this E False] show ?thesis by simp
  next
    case False
    with M have "\<bar>M\<bar> < 2 ^ 53" by simp
    then have "real_of_int \<bar>M\<bar> < 2 ^ 53"
      by (metis of_int_less_iff of_int_numeral of_int_power)
    then have "\<bar>x\<bar> < 2 ^ 53 * 2 powi e"
      using pow2_pos [of e] by (simp add: ax)
    also have "\<dots> = 2 powi (53 + e)" by (simp add: pow2_add)
    finally have "\<bar>x\<bar> < 2 powi (53 + e)" .
    moreover have "2 powi float_exponent x \<le> \<bar>x\<bar>"
      using float_exponent_bounds [OF \<open>x \<noteq> 0\<close>] by simp
    ultimately have "(2::real) powi float_exponent x < 2 powi (53 + e)" by linarith
    then have "float_exponent x < 53 + e" by (rule pow2_less_imp_less)
    then have d: "0 \<le> e - (float_exponent x - 52)" by simp
    have "float_exponent x - 52 = e - (e - (float_exponent x - 52))" by simp
    from round53_int_scaled [OF d x this \<open>x \<noteq> 0\<close>] show ?thesis .
  qed
qed

lemma round53_idem: "round53 (round53 x) = round53 x"
proof (cases "x = 0")
  case True
  then show ?thesis by (simp add: round53_def)
next
  case False
  define e where "e = float_exponent x - 52"
  define m where "m = x / 2 powi e"
  from float_exponent_bounds [OF False]
  have "2 powi (e + 52) \<le> \<bar>x\<bar>" and "\<bar>x\<bar> < 2 powi (e + 52 + 1)" by (simp_all add: e_def)
  then have "2 ^ 52 \<le> \<bar>m\<bar>" and "\<bar>m\<bar> < 2 ^ 53"
    using pow2_pos [of e] by (simp_all add: m_def pow2_add field_simps)
  then have M: "\<bar>round_half_even m\<bar> \<le> 2 ^ 53" by (rule round_half_even_mantissa)
  have r: "round53 x = real_of_int (round_half_even m) * 2 powi e"
    using False by (simp add: round53_def Let_def e_def m_def)
  show ?thesis using round53_exact [OF r M] .
qed

subsection \<open>Symmetry and bounds by powers of two\<close>

lemma round_half_even_minus: "round_half_even (- x) = - round_half_even x"
proof (cases "x = real_of_int \<lfloor>x\<rfloor>")
  case True
  then obtain k where k: "x = real_of_int k" ..
  have "round_half_even (real_of_int (- k)) = - k" by (rule round_half_even_of_int)
  then show ?thesis by (simp add: k round_half_even_of_int)
next
  case False
  define f where "f = \<lfloor>x\<rfloor>"
  define d where "d = x - real_of_int f"
  have "real_of_int \<lfloor>x\<rfloor> \<le> x" and "x < real_of_int \<lfloor>x\<rfloor> + 1" by linarith+
  with False have d: "0 < d" "d < 1" unfolding d_def f_def by linarith+
  have x: "x = real_of_int f + d" by (simp add: d_def)
  have "\<lfloor>- x\<rfloor> = - f - 1"
    using d by (intro floor_unique) (simp_all add: x)
  then have fl: "\<lfloor>- x\<rfloor> = - f - 1" .
  have fr: "- x - real_of_int (- f - 1) = 1 - d" by (simp add: x)
  have p: "round_half_even x =
      (if d < 1 / 2 then f else if 1 / 2 < d then f + 1 else if even f then f else f + 1)"
    by (simp add: round_half_even_def Let_def f_def d_def)
  have n: "round_half_even (- x) =
      (if 1 - d < 1 / 2 then - f - 1 else if 1 / 2 < 1 - d then - f - 1 + 1
       else if even (- f - 1) then - f - 1 else - f - 1 + 1)"
    unfolding round_half_even_def Let_def fl fr ..
  have "(if 1 - d < 1 / 2 then - f - 1 else if 1 / 2 < 1 - d then - f - 1 + 1
       else if even (- f - 1) then - f - 1 else - f - 1 + 1) =
      - (if d < 1 / 2 then f else if 1 / 2 < d then f + 1 else if even f then f else f + 1)"
    using d by auto
  then show ?thesis unfolding p n .
qed

lemma float_exponent_minus: "float_exponent (- x) = float_exponent x"
proof (cases "x = 0")
  case True
  then show ?thesis by simp
next
  case False
  from float_exponent_bounds [OF False] show ?thesis
    by (intro float_exponent_eqI) simp_all
qed

lemma round53_minus: "round53 (- x) = - round53 x"
  by (simp add: round53_def Let_def float_exponent_minus round_half_even_minus
      flip: minus_divide_left)

lemma round53_abs: "\<bar>round53 x\<bar> = round53 \<bar>x\<bar>"
proof (cases "0 \<le> x")
  case True
  then show ?thesis using round53_nonneg [of x] by simp
next
  case False
  then have "x < 0" by simp
  from round53_neg [OF this] this show ?thesis by (simp add: round53_minus)
qed

lemma pow2_le_imp_le:
  assumes "(2::real) powi a \<le> 2 powi b"
  shows "a \<le> b"
proof (rule ccontr)
  assume "\<not> a \<le> b"
  then have "b < a" by simp
  then have "(2::real) powi b < 2 powi a" by (intro power_int_strict_increasing) simp_all
  with assms show False by linarith
qed

lemma pow2_mono: "a \<le> b \<Longrightarrow> (2::real) powi a \<le> 2 powi b"
  by (intro power_int_increasing) simp_all

lemma round53_le_pow2:
  assumes "0 \<le> x" and "x \<le> 2 powi h"
  shows "round53 x \<le> 2 powi h"
proof (cases "x = 0")
  case True
  then show ?thesis using pow2_pos [of h] by (simp add: round53_def)
next
  case False
  define e where "e = float_exponent x - 52"
  from float_exponent_bounds [OF False] assms
  have "(2::real) powi float_exponent x \<le> 2 powi h" by simp
  then have "float_exponent x \<le> h" by (rule pow2_le_imp_le)
  then have d: "0 \<le> h - e" by (simp add: e_def)
  have "(2::real) powi h = 2 powi (h - e) * 2 powi e"
    using pow2_add [of "h - e" e] by simp
  also have "(2::real) powi (h - e) = real_of_int (2 ^ nat (h - e))"
    using d by (simp add: power_int_nonneg_exp)
  finally have h: "(2::real) powi h = real_of_int (2 ^ nat (h - e)) * 2 powi e" .
  have "x / 2 powi e \<le> real_of_int (2 ^ nat (h - e))"
    using assms(2) pow2_pos [of e] unfolding h by (simp add: field_simps)
  then have "round_half_even (x / 2 powi e) \<le> 2 ^ nat (h - e)" by (rule round_half_even_le)
  then have "real_of_int (round_half_even (x / 2 powi e)) \<le> real_of_int (2 ^ nat (h - e))"
    by (simp only: of_int_le_iff)
  then have "real_of_int (round_half_even (x / 2 powi e)) * 2 powi e \<le>
      real_of_int (2 ^ nat (h - e)) * 2 powi e"
    using pow2_pos [of e] by (simp only: mult_le_cancel_right_pos)
  then show ?thesis
    using False unfolding h by (simp add: round53_def Let_def e_def)
qed

lemma round53_ge_pow2:
  assumes "2 powi l \<le> x"
  shows "2 powi l \<le> round53 x"
proof -
  define e where "e = float_exponent x - 52"
  from assms pow2_pos [of l] have pos: "0 < x" by linarith
  then have nz: "x \<noteq> 0" by simp
  from float_exponent_bounds [OF nz] pos assms
  have lo: "2 powi (e + 52) \<le> x" and "(2::real) powi l < 2 powi (float_exponent x + 1)"
    by (simp_all add: e_def)
  then have "l < float_exponent x + 1" by (intro pow2_less_imp_less)
  then have "l \<le> e + 52" by (simp add: e_def)
  then have le: "(2::real) powi l \<le> 2 powi (e + 52)" by (rule pow2_mono)
  from lo have "real_of_int (2 ^ 52) \<le> x / 2 powi e"
    using pow2_pos [of e] by (simp add: pow2_add field_simps)
  then have "2 ^ 52 \<le> round_half_even (x / 2 powi e)" by (rule round_half_even_ge)
  then have "real_of_int (2 ^ 52) \<le> real_of_int (round_half_even (x / 2 powi e))"
    by (simp only: of_int_le_iff)
  then have m: "real_of_int (2 ^ 52) * 2 powi e \<le>
      real_of_int (round_half_even (x / 2 powi e)) * 2 powi e"
    using pow2_pos [of e] by (simp only: mult_le_cancel_right_pos)
  have r: "round53 x = real_of_int (round_half_even (x / 2 powi e)) * 2 powi e"
    using nz by (simp add: round53_def Let_def e_def)
  have "(2::real) powi (e + 52) = real_of_int (2 ^ 52) * 2 powi e"
    by (simp add: pow2_add)
  with m r le show ?thesis by linarith
qed

section \<open>Rounding to binary64\<close>

subsection \<open>The three ranges\<close>

lemma round64_zero: "round64 0 = Finite 0"
  using pow2_pos [of emin] by (simp add: round64_def round_half_even_def)

lemma round53_abs_le_pow2: "\<bar>x\<bar> \<le> 2 powi h \<Longrightarrow> \<bar>round53 x\<bar> \<le> 2 powi h"
  unfolding round53_abs by (rule round53_le_pow2) simp_all

lemma round53_abs_ge_pow2: "2 powi l \<le> \<bar>x\<bar> \<Longrightarrow> 2 powi l \<le> \<bar>round53 x\<bar>"
  unfolding round53_abs by (rule round53_ge_pow2)

lemma round64_normal:
  assumes "2 powi emin \<le> \<bar>x\<bar>" and "\<bar>x\<bar> \<le> 2 powi emax"
  shows "round64 x = Finite (round53 x)"
proof -
  have "\<bar>round53 x\<bar> \<le> 2 powi emax" by (rule round53_abs_le_pow2 [OF assms(2)])
  moreover have "(2::real) powi emax < 2 powi (emax + 1)"
    by (intro power_int_strict_increasing) simp_all
  ultimately have "\<not> 2 powi (emax + 1) \<le> \<bar>round53 x\<bar>" by linarith
  moreover from assms(1) have "\<not> \<bar>x\<bar> < 2 powi emin" by simp
  ultimately show ?thesis by (simp add: round64_def)
qed

lemma round64_subnormal:
  assumes "\<bar>x\<bar> < 2 powi emin"
  shows "round64 x =
    Finite (real_of_int (round_half_even (x / 2 powi (emin - 52))) * 2 powi (emin - 52))"
  using assms by (simp only: round64_def if_True)

lemma round53_on_grid:
  assumes "2 powi g \<le> \<bar>x\<bar>"
  shows "\<exists>M. round53 x = real_of_int M * 2 powi (g - 52)"
proof -
  define e where "e = float_exponent x - 52"
  from assms pow2_pos [of g] have "0 < \<bar>x\<bar>" by linarith
  then have nz: "x \<noteq> 0" by simp
  from float_exponent_bounds [OF nz] assms
  have "(2::real) powi g < 2 powi (float_exponent x + 1)" by linarith
  then have "g < float_exponent x + 1" by (rule pow2_less_imp_less)
  then have d: "0 \<le> e - (g - 52)" by (simp add: e_def)
  have "(2::real) powi e = 2 powi (e - (g - 52)) * 2 powi (g - 52)"
    using pow2_add [of "e - (g - 52)" "g - 52"] by simp
  also have "(2::real) powi (e - (g - 52)) = real_of_int (2 ^ nat (e - (g - 52)))"
    using d by (simp add: power_int_nonneg_exp)
  finally have "round53 x =
      real_of_int (round_half_even (x / 2 powi e) * 2 ^ nat (e - (g - 52))) * 2 powi (g - 52)"
    using nz by (simp add: round53_def Let_def e_def)
  then show ?thesis ..
qed

lemma round64_on_grid:
  assumes "round64 x = Finite y"
  shows "\<exists>M. y = real_of_int M * 2 powi (emin - 52)"
proof (cases "\<bar>x\<bar> < 2 powi emin")
  case True
  from assms round64_subnormal [OF True] show ?thesis by auto
next
  case False
  then have "2 powi emin \<le> \<bar>x\<bar>" by simp
  from round53_on_grid [OF this] obtain M where "round53 x = real_of_int M * 2 powi (emin - 52)"
    by auto
  moreover from assms False have "y = round53 x"
    by (simp add: round64_def split: if_splits)
  ultimately show ?thesis by auto
qed

lemma round64_grid_exact:
  assumes x: "x = real_of_int M * 2 powi (emin - 52)" and small: "\<bar>x\<bar> < 2 powi (emin + 1)"
  shows "round64 x = Finite x"
proof (cases "\<bar>x\<bar> < 2 powi emin")
  case True
  have "x / 2 powi (emin - 52) = real_of_int M"
    using pow2_pos [of "emin - 52"] by (simp add: x)
  then have "round_half_even (x / 2 powi (emin - 52)) = M"
    by (simp only: round_half_even_of_int)
  with round64_subnormal [OF True] show ?thesis by (simp add: x)
next
  case False
  then have lo: "2 powi emin \<le> \<bar>x\<bar>" by simp
  have "(2::real) powi (53 + (emin - 52)) = 2 powi 53 * 2 powi (emin - 52)"
    by (rule pow2_add)
  then have "(2::real) powi (emin + 1) = 2 ^ 53 * 2 powi (emin - 52)"
    by (simp add: add.commute)
  with small have "\<bar>real_of_int M\<bar> * 2 powi (emin - 52) < 2 ^ 53 * 2 powi (emin - 52)"
    using pow2_pos [of "emin - 52"] by (simp add: x abs_mult)
  then have "\<bar>real_of_int M\<bar> < 2 ^ 53"
    using pow2_pos [of "emin - 52"] by (simp only: mult_less_cancel_right_pos)
  then have "real_of_int \<bar>M\<bar> < real_of_int (2 ^ 53)" by simp
  then have "\<bar>M\<bar> < 2 ^ 53" by (simp only: of_int_less_iff)
  then have M: "\<bar>M\<bar> \<le> 2 ^ 53" by simp
  have r: "round53 x = x" by (rule round53_exact [OF x M])
  have "(2::real) powi (emin + 1) \<le> 2 powi emax" by (rule pow2_mono) (simp add: emin_def emax_def)
  with small have "\<bar>x\<bar> \<le> 2 powi emax" by linarith
  from round64_normal [OF lo this] r show ?thesis by simp
qed

lemma is_float_on_grid: "is_float x \<Longrightarrow> \<exists>M. x = real_of_int M * 2 powi (emin - 52)"
  unfolding is_float_def by (rule round64_on_grid)

subsection \<open>Finiteness, bounds, exactness, monotonicity\<close>

lemma emin_le_emax: "emin \<le> emax"
  by (simp add: emin_def emax_def)

lemma round_half_even_abs_le:
  assumes "\<bar>x\<bar> \<le> real_of_int k"
  shows "\<bar>round_half_even x\<bar> \<le> k"
proof -
  from assms have lo: "real_of_int (- k) \<le> x" and hi: "x \<le> real_of_int k" by simp_all
  from round_half_even_ge [OF lo] round_half_even_le [OF hi] show ?thesis by simp
qed

text \<open>The subnormal branch: the result is at most the smallest normal number.\<close>

lemma subnormal_result_le:
  assumes "\<bar>x\<bar> < 2 powi emin"
  shows "\<bar>real_of_int (round_half_even (x / 2 powi (emin - 52))) * 2 powi (emin - 52)\<bar>
    \<le> 2 powi emin"
proof -
  have p: "(2::real) powi emin = 2 ^ 52 * 2 powi (emin - 52)"
    using pow2_add [of 52 "emin - 52"] by simp
  have "\<bar>x\<bar> / 2 powi (emin - 52) \<le> 2 ^ 52"
    using assms pow2_pos [of "emin - 52"] unfolding p by (simp add: field_simps)
  then have "\<bar>x / 2 powi (emin - 52)\<bar> \<le> real_of_int (2 ^ 52)"
    using pow2_pos [of "emin - 52"] by (simp add: abs_divide)
  then have "\<bar>round_half_even (x / 2 powi (emin - 52))\<bar> \<le> 2 ^ 52"
    by (rule round_half_even_abs_le)
  then have "real_of_int \<bar>round_half_even (x / 2 powi (emin - 52))\<bar> \<le> real_of_int (2 ^ 52)"
    by (simp only: of_int_le_iff)
  then have "\<bar>real_of_int (round_half_even (x / 2 powi (emin - 52)))\<bar> * 2 powi (emin - 52)
      \<le> 2 ^ 52 * 2 powi (emin - 52)"
    using pow2_pos [of "emin - 52"] by (simp add: mult_le_cancel_right_pos)
  then show ?thesis
    using pow2_pos [of "emin - 52"] unfolding p by (simp add: abs_mult)
qed

lemma round64_finite:
  assumes "\<bar>x\<bar> \<le> 2 powi emax"
  shows "\<exists>y. round64 x = Finite y"
proof (cases "\<bar>x\<bar> < 2 powi emin")
  case True
  from round64_subnormal [OF this] show ?thesis by blast
next
  case False
  then have "2 powi emin \<le> \<bar>x\<bar>" by simp
  from round64_normal [OF this assms] show ?thesis by blast
qed

lemma round64_abs_le:
  assumes "round64 x = Finite y" and "\<bar>x\<bar> \<le> 2 powi h" and "emin \<le> h"
  shows "\<bar>y\<bar> \<le> 2 powi h"
proof (cases "\<bar>x\<bar> < 2 powi emin")
  case True
  from assms(1) round64_subnormal [OF True] subnormal_result_le [OF True]
  have "\<bar>y\<bar> \<le> 2 powi emin" by simp
  with pow2_mono [OF assms(3)] show ?thesis by linarith
next
  case False
  with assms(1) have "y = round53 x" by (simp add: round64_def split: if_splits)
  with round53_abs_le_pow2 [OF assms(2)] show ?thesis by simp
qed

lemma round64_nonneg:
  assumes "round64 x = Finite y" and "0 \<le> x"
  shows "0 \<le> y"
proof (cases "\<bar>x\<bar> < 2 powi emin")
  case True
  have "real_of_int 0 \<le> x / 2 powi (emin - 52)"
    using assms(2) pow2_pos [of "emin - 52"] by simp
  then have "0 \<le> round_half_even (x / 2 powi (emin - 52))" by (rule round_half_even_ge)
  with assms(1) round64_subnormal [OF True] pow2_pos [of "emin - 52"] show ?thesis by auto
next
  case False
  with assms(1) have "y = round53 x" by (simp add: round64_def split: if_splits)
  with round53_nonneg [OF assms(2)] show ?thesis by simp
qed

lemma round64_ge:
  assumes "round64 x = Finite y" and "2 powi l \<le> x" and "emin \<le> l"
  shows "2 powi l \<le> y"
proof -
  from assms(2) pow2_pos [of l] have pos: "0 < x" by linarith
  from pow2_mono [OF assms(3)] assms(2) pos have "\<not> \<bar>x\<bar> < 2 powi emin" by simp
  with assms(1) have "y = round53 x" by (simp add: round64_def split: if_splits)
  with round53_ge_pow2 [OF assms(2)] show ?thesis by simp
qed

lemma round64_idem:
  assumes "round64 x = Finite y"
  shows "round64 y = Finite y"
proof (cases "\<bar>x\<bar> < 2 powi emin")
  case True
  from round64_on_grid [OF assms] obtain M where M: "y = real_of_int M * 2 powi (emin - 52)" ..
  from assms round64_subnormal [OF True] subnormal_result_le [OF True]
  have "\<bar>y\<bar> \<le> 2 powi emin" by simp
  moreover have "(2::real) powi emin < 2 powi (emin + 1)"
    by (intro power_int_strict_increasing) simp_all
  ultimately have "\<bar>y\<bar> < 2 powi (emin + 1)" by linarith
  from round64_grid_exact [OF M this] show ?thesis .
next
  case False
  then have lo: "2 powi emin \<le> \<bar>x\<bar>" by simp
  from assms False have y: "y = round53 x" and fin: "\<not> 2 powi (emax + 1) \<le> \<bar>round53 x\<bar>"
    by (simp_all add: round64_def split: if_splits)
  from round53_abs_ge_pow2 [OF lo] have "\<not> \<bar>y\<bar> < 2 powi emin" by (simp add: y)
  moreover have "round53 y = y" by (simp add: y round53_idem)
  ultimately show ?thesis using fin by (simp add: round64_def y)
qed

lemma is_float_round64: "round64 x = Finite y \<Longrightarrow> is_float y"
  unfolding is_float_def by (rule round64_idem)

text \<open>Doubling commutes with rounding away from the subnormal range and from overflow.\<close>

lemma round64_double:
  assumes "(\<exists>M. x = real_of_int M * 2 powi (emin - 52)) \<or> 2 powi emin \<le> \<bar>x\<bar>"
    and "\<bar>x\<bar> \<le> 2 powi (emax - 1)"
  shows "\<exists>y. round64 x = Finite y \<and> round64 (2 * x) = Finite (2 * y)"
proof (cases "2 powi emin \<le> \<bar>x\<bar>")
  case True
  have "(2::real) powi (emax - 1) \<le> 2 powi emax" by (rule pow2_mono) simp
  with assms(2) have a: "\<bar>x\<bar> \<le> 2 powi emax" by linarith
  have "(2::real) powi emax = 2 * 2 powi (emax - 1)"
    using pow2_add [of 1 "emax - 1"] by simp
  with assms(2) have b: "\<bar>2 * x\<bar> \<le> 2 powi emax" by simp
  from True have c: "2 powi emin \<le> \<bar>2 * x\<bar>" by simp
  from round64_normal [OF True a] round64_normal [OF c b] show ?thesis
    by (simp add: round53_double)
next
  case False
  with assms(1) obtain M where M: "x = real_of_int M * 2 powi (emin - 52)" by blast
  then have M2: "2 * x = real_of_int (2 * M) * 2 powi (emin - 52)" by simp
  have p: "(2::real) powi (emin + 1) = 2 * 2 powi emin"
    using pow2_add [of 1 emin] by (simp add: add.commute)
  from False have s: "\<bar>x\<bar> < 2 powi (emin + 1)" "\<bar>2 * x\<bar> < 2 powi (emin + 1)"
    using pow2_pos [of emin] unfolding p by simp_all
  from round64_grid_exact [OF M s(1)] round64_grid_exact [OF M2 s(2)] show ?thesis by simp
qed

text \<open>Rounding does not pass a float: it is monotone.\<close>

lemma round64_le_float:
  assumes "0 \<le> x" and "x \<le> z" and "is_float z"
  shows "\<exists>y. round64 x = Finite y \<and> 0 \<le> y \<and> y \<le> z"
proof (cases "\<bar>x\<bar> < 2 powi emin")
  case True
  from is_float_on_grid [OF assms(3)] obtain K where K: "z = real_of_int K * 2 powi (emin - 52)" ..
  have "x / 2 powi (emin - 52) \<le> real_of_int K"
    using assms(2) pow2_pos [of "emin - 52"] by (simp add: K field_simps)
  then have "round_half_even (x / 2 powi (emin - 52)) \<le> K" by (rule round_half_even_le)
  then have "real_of_int (round_half_even (x / 2 powi (emin - 52))) \<le> real_of_int K"
    by (simp only: of_int_le_iff)
  then have "real_of_int (round_half_even (x / 2 powi (emin - 52))) * 2 powi (emin - 52) \<le> z"
    using pow2_pos [of "emin - 52"] unfolding K by (simp only: mult_le_cancel_right_pos)
  with round64_subnormal [OF True] round64_nonneg [OF _ assms(1)] show ?thesis by simp
next
  case False
  with assms(1) have lo: "2 powi emin \<le> x" by simp
  then have pos: "0 < x" using pow2_pos [of emin] by linarith
  with assms(2) have zpos: "0 < z" by simp
  from lo assms(2) zpos have zn: "\<not> \<bar>z\<bar> < 2 powi emin" by simp
  from assms(3) zn have zr: "round53 z = z" and zf: "\<not> 2 powi (emax + 1) \<le> \<bar>round53 z\<bar>"
    by (simp_all add: is_float_def round64_def split: if_splits)
  define e where "e = float_exponent x - 52"
  have nz: "x \<noteq> 0" "z \<noteq> 0" using pos zpos by simp_all
  from float_exponent_bounds [OF nz(1)] float_exponent_bounds [OF nz(2)] pos zpos assms(2)
  have "(2::real) powi float_exponent x < 2 powi (float_exponent z + 1)" by simp
  then have "float_exponent x < float_exponent z + 1" by (rule pow2_less_imp_less)
  then have g: "e + 52 \<le> float_exponent z" by (simp add: e_def)
  have "(2::real) powi (e + 52) \<le> 2 powi float_exponent z" by (rule pow2_mono [OF g])
  with float_exponent_bounds [OF nz(2)] zpos have "2 powi (e + 52) \<le> \<bar>z\<bar>" by simp
  from round53_on_grid [OF this] zr obtain K where K: "z = real_of_int K * 2 powi e" by auto
  have "x / 2 powi e \<le> real_of_int K"
    using assms(2) pow2_pos [of e] by (simp add: K field_simps)
  then have "round_half_even (x / 2 powi e) \<le> K" by (rule round_half_even_le)
  then have "real_of_int (round_half_even (x / 2 powi e)) \<le> real_of_int K"
    by (simp only: of_int_le_iff)
  then have "real_of_int (round_half_even (x / 2 powi e)) * 2 powi e \<le> z"
    using pow2_pos [of e] unfolding K by (simp only: mult_le_cancel_right_pos)
  then have le: "round53 x \<le> z" using nz(1) by (simp add: round53_def Let_def e_def)
  have r0: "0 \<le> round53 x" by (rule round53_nonneg [OF assms(1)])
  from le r0 zf zr zpos have "\<not> 2 powi (emax + 1) \<le> \<bar>round53 x\<bar>" by simp
  with False have "round64 x = Finite (round53 x)" by (simp add: round64_def)
  with le r0 show ?thesis by simp
qed

section \<open>Evaluation\<close>

text \<open>On a numeral of moderate size the rounding is computed by rewriting with its definitions.\<close>

lemmas round53_eval = round53_def float_exponent.simps round_half_even_def Let_def

lemma round64_moderate:
  assumes "1 / 2 ^ 64 \<le> \<bar>x\<bar>" and "\<bar>x\<bar> \<le> 2 ^ 64"
  shows "round64 x = Finite (round53 x)"
proof -
  have "(2::real) powi emin \<le> 2 powi (- 64)" by (rule pow2_mono) (simp add: emin_def)
  also have "(2::real) powi (- 64) = 1 / 2 ^ 64" by (simp add: power_int_minus_divide)
  finally have lo: "2 powi emin \<le> \<bar>x\<bar>" using assms(1) by linarith
  have "(2::real) powi 64 \<le> 2 powi emax" by (rule pow2_mono) (simp add: emax_def)
  then have hi: "\<bar>x\<bar> \<le> 2 powi emax" using assms(2) by simp
  show ?thesis by (rule round64_normal [OF lo hi])
qed

section \<open>The block, variable by variable\<close>

text \<open>Each variable of a returned result, in the variables assigned before it.\<close>

lemma compute_Inr_fields:
  assumes "compute p = Inr r"
  shows "apg_value_orig r =
      float_mul (Finite (total_contract_value p)) (Finite (advance_payment_percent_orig p))"
    and "pg_value_orig r =
      float_mul (Finite (total_contract_value p)) (Finite (pg_percent_orig p))"
    and "float_truediv_int (Finite (total_contract_value p)) (num_phases p) =
      Inr (phase_contract_value r)"
    and "apg_value_phased r =
      float_mul (phase_contract_value r) (Finite (advance_payment_percent_orig p))"
    and "pg_value_phased r = float_mul (phase_contract_value r) (Finite (pg_percent_phased p))"
    and "int_truediv (construction_duration_orig p) 12 = Inr (apg_duration_orig r)"
    and "int_truediv (construction_duration_orig p + dlp_duration_orig p) 12 =
      Inr (pg_duration_orig r)"
    and "int_truediv (construction_duration_phased p) 12 = Inr (apg_duration_phased r)"
    and "int_truediv (construction_duration_phased p + dlp_duration_phased p) 12 =
      Inr (pg_duration_phased r)"
    and "apg_annual_cost_orig r = float_mul (apg_value_orig r) (Finite (bank_fee_rate p))"
    and "apg_total_cost_orig r = float_mul (apg_annual_cost_orig r) (apg_duration_orig r)"
    and "pg_annual_cost_orig r = float_mul (pg_value_orig r) (Finite (bank_fee_rate p))"
    and "pg_total_cost_orig r = float_mul (pg_annual_cost_orig r) (pg_duration_orig r)"
    and "total_cost_orig r = float_add (apg_total_cost_orig r) (pg_total_cost_orig r)"
    and "apg_annual_cost_phased r = float_mul (apg_value_phased r) (Finite (bank_fee_rate p))"
    and "apg_cost_per_phase r = float_mul (apg_annual_cost_phased r) (apg_duration_phased r)"
    and "pg_annual_cost_phased r = float_mul (pg_value_phased r) (Finite (bank_fee_rate p))"
    and "pg_cost_per_phase r = float_mul (pg_annual_cost_phased r) (pg_duration_phased r)"
    and "float_mul_int (apg_cost_per_phase r) (num_phases p) = Inr (apg_total_cost_phased r)"
    and "float_mul_int (pg_cost_per_phase r) (num_phases p) = Inr (pg_total_cost_phased r)"
    and "total_cost_phased r = float_add (apg_total_cost_phased r) (pg_total_cost_phased r)"
    and "apg_savings r = float_sub (apg_total_cost_orig r) (apg_total_cost_phased r)"
    and "pg_savings r = float_sub (pg_total_cost_orig r) (pg_total_cost_phased r)"
    and "total_savings r = float_sub (total_cost_orig r) (total_cost_phased r)"
    and "credit_line_orig r = apg_value_orig r"
    and "credit_line_phased r = float_add (apg_value_phased r) (pg_value_phased r)"
    and "credit_line_savings r = float_sub (credit_line_orig r) (credit_line_phased r)"
  using assms
  by (auto simp add: compute_def and_then_def calc_costs_def Let_def split: sum.splits)

subsection \<open>The mixed operations on the declared ranges\<close>

lemma round64_small_int:
  "round64 1 = Finite 1" "round64 2 = Finite 2" "round64 3 = Finite 3"
  "round64 4 = Finite 4" "round64 5 = Finite 5"
  by (simp_all add: round64_moderate round53_eval)

lemma float_of_int_phases:
  assumes "1 \<le> n" and "n \<le> 5"
  shows "float_of_int n = Inr (Finite (real_of_int n))"
proof -
  from assms have "n = 1 \<or> n = 2 \<or> n = 3 \<or> n = 4 \<or> n = 5" by arith
  then show ?thesis by (auto simp add: float_of_int_def round64_small_int)
qed

lemma float_truediv_int_phases:
  assumes "1 \<le> n" and "n \<le> 5"
  shows "float_truediv_int (Finite a) n = Inr (round64 (a / real_of_int n))"
  using assms
  by (simp add: float_truediv_int_def and_then_def float_of_int_phases float_truediv_def)

lemma float_mul_int_phases:
  assumes "1 \<le> n" and "n \<le> 5"
  shows "float_mul_int x n = Inr (float_mul x (Finite (real_of_int n)))"
  using assms by (simp add: float_mul_int_def and_then_def float_of_int_phases)

lemma int_truediv_months:
  assumes "1 \<le> a" and "a \<le> 36"
  shows "\<exists>d. int_truediv a 12 = Inr (Finite d) \<and> 1 / 16 \<le> d \<and> d \<le> 4"
proof -
  define x where "x = real_of_int a / 12"
  from assms have x: "1 / 16 \<le> x" "x \<le> 4" "0 \<le> x" by (simp_all add: x_def)
  have lo: "2 powi (- 4) \<le> x" using x(1) by (simp add: power_int_minus_divide)
  have hi: "\<bar>x\<bar> \<le> 2 powi 2" using x(2,3) by simp
  have "(2::real) powi 2 \<le> 2 powi emax" by (rule pow2_mono) (simp add: emax_def)
  with hi have "\<bar>x\<bar> \<le> 2 powi emax" by linarith
  from round64_finite [OF this] obtain d where d: "round64 x = Finite d" ..
  have e: "emin \<le> - 4" "emin \<le> 2" by (simp_all add: emin_def)
  from round64_ge [OF d lo e(1)] have "1 / 16 \<le> d" by (simp add: power_int_minus_divide)
  moreover from round64_abs_le [OF d hi e(2)] have "d \<le> 4" by simp
  ultimately show ?thesis using d by (simp add: int_truediv_def x_def)
qed

lemma compute_returns:
  assumes "valid_input p"
  shows "\<exists>r. compute p = Inr r"
proof -
  from assms have n: "1 \<le> num_phases p" "num_phases p \<le> 5"
    and m: "1 \<le> construction_duration_orig p" "construction_duration_orig p \<le> 36"
      "1 \<le> construction_duration_orig p + dlp_duration_orig p"
      "construction_duration_orig p + dlp_duration_orig p \<le> 36"
      "1 \<le> construction_duration_phased p" "construction_duration_phased p \<le> 36"
      "1 \<le> construction_duration_phased p + dlp_duration_phased p"
      "construction_duration_phased p + dlp_duration_phased p \<le> 36"
    by (simp_all add: valid_input_def)
  from int_truediv_months [OF m(1,2)] obtain d1
    where d1: "int_truediv (construction_duration_orig p) 12 = Inr (Finite d1)" by blast
  from int_truediv_months [OF m(3,4)] obtain d2
    where d2: "int_truediv (construction_duration_orig p + dlp_duration_orig p) 12 =
      Inr (Finite d2)" by blast
  from int_truediv_months [OF m(5,6)] obtain d3
    where d3: "int_truediv (construction_duration_phased p) 12 = Inr (Finite d3)" by blast
  from int_truediv_months [OF m(7,8)] obtain d4
    where d4: "int_truediv (construction_duration_phased p + dlp_duration_phased p) 12 =
      Inr (Finite d4)" by blast
  show ?thesis
    by (simp add: compute_def and_then_def calc_costs_def Let_def split_beta
        float_truediv_int_phases [OF n] float_mul_int_phases [OF n] d1 d2 d3 d4)
qed

lemma round64_eq_zero:
  assumes "round64 x = Finite 0"
  shows "\<bar>x\<bar> < 2 powi emin"
proof (rule ccontr)
  assume a: "\<not> \<bar>x\<bar> < 2 powi emin"
  with assms have "round53 x = 0" by (simp add: round64_def split: if_splits)
  then have "x = 0" by (simp add: round53_eq_0_iff)
  with a pow2_pos [of emin] show False by simp
qed

lemma float_of_int_zero_iff: "float_of_int n = Inr (Finite 0) \<longleftrightarrow> n = 0"
proof
  assume "float_of_int n = Inr (Finite 0)"
  then have "round64 (real_of_int n) = Finite 0"
    by (simp add: float_of_int_def split: pyfloat.splits)
  from round64_eq_zero [OF this] have "\<bar>real_of_int n\<bar> < 2 powi emin" .
  moreover have "(2::real) powi emin \<le> 2 powi 0" by (rule pow2_mono) (simp add: emin_def)
  ultimately have "\<bar>real_of_int n\<bar> < 1" by simp
  then have "real_of_int \<bar>n\<bar> < real_of_int 1" by simp
  then have "\<bar>n\<bar> < 1" by (simp only: of_int_less_iff)
  then show "n = 0" by simp
next
  assume "n = 0"
  then show "float_of_int n = Inr (Finite 0)" by (simp add: float_of_int_def round64_zero)
qed

lemma float_of_int_not_zero_division: "float_of_int n \<noteq> Inl ZeroDivisionError"
  by (simp add: float_of_int_def split: pyfloat.splits)

lemma int_truediv_12_not_zero_division: "int_truediv a 12 \<noteq> Inl ZeroDivisionError"
  by (simp add: int_truediv_def split: pyfloat.splits)

lemma float_mul_int_not_zero_division: "float_mul_int x n \<noteq> Inl ZeroDivisionError"
  using float_of_int_not_zero_division [of n]
  by (auto simp add: float_mul_int_def and_then_def split: sum.splits)

lemma float_truediv_int_zero_division:
  "float_truediv_int x n = Inl ZeroDivisionError \<longleftrightarrow> n = 0"
  using float_of_int_not_zero_division [of n] float_of_int_zero_iff [of n]
  by (auto simp add: float_truediv_int_def and_then_def float_truediv_def split: sum.splits)

lemma compute_raises_iff: "compute p = Inl ZeroDivisionError \<longleftrightarrow> num_phases p = 0"
  using float_truediv_int_zero_division [of "Finite (total_contract_value p)" "num_phases p"]
  by (auto simp add: compute_def and_then_def calc_costs_def Let_def split_beta
      int_truediv_12_not_zero_division float_mul_int_not_zero_division split: sum.splits)

lemma valid_phases: "valid_input p \<Longrightarrow> 1 \<le> num_phases p \<and> num_phases p \<le> 5"
  by (simp add: valid_input_def)

section \<open>The scenario\<close>

lemma scenario_floats:
  "advance_payment_percent_orig scenario = 3602879701896397 / 9007199254740992"
  "pg_percent_orig scenario = 5404319552844595 / 18014398509481984"
  "pg_percent_phased scenario = 3602879701896397 / 36028797018963968"
  "bank_fee_rate scenario = 5764607523034235 / 576460752303423488"
  by (simp_all add: scenario_def round53_eval)

lemma scenario_ints:
  "total_contract_value scenario = 320000000"
  "construction_duration_orig scenario = 12"
  "dlp_duration_orig scenario = 6"
  "construction_duration_phased scenario = 3"
  "dlp_duration_phased scenario = 6"
  by (simp_all add: scenario_def)

lemma scenario_percentages:
  "float_truediv (Finite 40) (Finite 100) = Inr (Finite (advance_payment_percent_orig scenario))"
  "float_truediv (Finite 30) (Finite 100) = Inr (Finite (pg_percent_orig scenario))"
  "float_truediv (Finite 10) (Finite 100) = Inr (Finite (pg_percent_phased scenario))"
  "float_truediv (Finite 1) (Finite 100) = Inr (Finite (bank_fee_rate scenario))"
  by (simp_all add: float_truediv_def round64_moderate scenario_def)

lemma is_float_contract: "is_float 320000000"
  by (simp add: is_float_def round64_moderate round53_eval)

lemma valid_scenario: "valid_input scenario"
  unfolding valid_input_def scenario_floats by (simp add: scenario_def)

lemmas float_eval = float_truediv_int_def float_mul_int_def and_then_def float_of_int_def
  float_truediv_def int_truediv_def float_sub_def round64_small_int round64_moderate round53_eval

section \<open>Signs\<close>

lemma round64_nonneg_le:
  assumes "0 \<le> x"
  shows "float_le (Finite 0) (round64 x)"
proof (cases "round64 x")
  case (Finite y)
  from round64_nonneg [OF Finite assms] Finite show ?thesis by simp
next
  case PosInf
  then show ?thesis by simp
next
  case NegInf
  with assms have "x = 0" by (simp add: round64_def split: if_splits)
  with NegInf show ?thesis by (simp add: round64_zero)
next
  case NaN
  then show ?thesis by (simp add: round64_def split: if_splits)
qed

lemma float_mul_finite_nonneg:
  "0 \<le> a \<Longrightarrow> 0 \<le> b \<Longrightarrow> float_le (Finite 0) (float_mul (Finite a) (Finite b))"
  by (simp add: round64_nonneg_le)

lemma float_mul_nonneg_pos:
  assumes "float_le (Finite 0) x" and "0 < b"
  shows "float_le (Finite 0) (float_mul x (Finite b))"
proof (cases x)
  case (Finite a)
  with assms show ?thesis by (simp add: round64_nonneg_le)
qed (use assms in simp_all)

lemma float_add_nonneg:
  assumes "float_le (Finite 0) x" and "float_le (Finite 0) y"
  shows "float_le (Finite 0) (float_add x y)"
  using assms by (cases x; cases y) (simp_all add: round64_nonneg_le)

section \<open>Scaling by a power of two\<close>

lemma in_range_nonneg:
  assumes "in_range l h x"
  shows "0 \<le> x"
proof -
  from assms consider "x = 0" | "2 powi l \<le> x" by (auto simp add: in_range_def)
  then show ?thesis
  proof cases
    case 1
    then show ?thesis by simp
  next
    case 2
    with pow2_pos [of l] show ?thesis by linarith
  qed
qed

lemma in_range_le:
  assumes "in_range l h x"
  shows "x \<le> 2 powi h"
proof -
  from assms consider "x = 0" | "x \<le> 2 powi h" by (auto simp add: in_range_def)
  then show ?thesis
  proof cases
    case 1
    with pow2_pos [of h] show ?thesis by simp
  next
    case 2
    then show ?thesis .
  qed
qed

lemma in_range_mult:
  assumes "in_range l h x" and "in_range l' h' c"
  shows "in_range (l + l') (h + h') (x * c)"
proof (cases "x = 0 \<or> c = 0")
  case True
  then show ?thesis by (auto simp add: in_range_def)
next
  case False
  with assms have x: "2 powi l \<le> x" "x \<le> 2 powi h" and c: "2 powi l' \<le> c" "c \<le> 2 powi h'"
    by (auto simp add: in_range_def)
  have nn: "0 \<le> x" "0 \<le> c"
    by (rule in_range_nonneg [OF assms(1)], rule in_range_nonneg [OF assms(2)])
  have "2 powi l * 2 powi l' \<le> x * c"
    using pow2_pos [of l'] by (intro mult_mono x(1) c(1) nn(1)) simp
  moreover have "x * c \<le> 2 powi h * 2 powi h'"
    using pow2_pos [of h] by (intro mult_mono x(2) c(2) nn(2)) simp
  ultimately show ?thesis by (simp add: in_range_def pow2_add)
qed

lemma in_range_divide:
  assumes "in_range l h x" and "1 \<le> c" and "c \<le> 8"
  shows "in_range (l - 3) h (x / c)"
proof (cases "x = 0")
  case True
  then show ?thesis by (simp add: in_range_def)
next
  case False
  with assms have x: "2 powi l \<le> x" "x \<le> 2 powi h" by (auto simp add: in_range_def)
  have p: "(2::real) powi (l - 3) = 2 powi l / 8" by (simp add: pow2_diff)
  have pos: "0 < x" using x(1) pow2_pos [of l] by linarith
  have "x / 8 \<le> x / c" using assms(2,3) pos by (intro divide_left_mono) simp_all
  with x(1) have "2 powi (l - 3) \<le> x / c" unfolding p by simp
  moreover have "x / c \<le> x" using assms(2) pos by (simp add: field_simps mult_le_cancel_left1)
  ultimately show ?thesis using x(2) by (simp add: in_range_def)
qed

lemma in_range_mono: "in_range l h x \<Longrightarrow> l' \<le> l \<Longrightarrow> h \<le> h' \<Longrightarrow> in_range l' h' x"
  using pow2_mono [of l' l] pow2_mono [of h h'] by (auto simp add: in_range_def)

lemma is_float_zero: "is_float 0"
  by (simp add: is_float_def round64_zero)

text \<open>Rounding commutes with a factor 1, 2 or 4 on a magnitude in the normal range.\<close>

lemma scaled_round:
  assumes k: "k = 1 \<or> k = 2 \<or> k = 4" and x: "in_range l h x"
    and l: "emin \<le> l" and h: "h \<le> emax - 2"
  shows "scaled k l h (round64 x) (round64 (k * x))"
proof (cases "x = 0")
  case True
  then show ?thesis by (simp add: scaled_def round64_zero in_range_def is_float_zero)
next
  case False
  with x have lo: "2 powi l \<le> x" and hi: "x \<le> 2 powi h" by (auto simp add: in_range_def)
  from lo pow2_pos [of l] have pos: "0 < x" by linarith
  have n: "2 powi emin \<le> \<bar>x\<bar>" using pow2_mono [OF l] lo pos by simp
  have p1: "(2::real) powi (h + 1) = 2 * 2 powi h" using pow2_add [of 1 h] by (simp add: add.commute)
  have b1: "\<bar>x\<bar> \<le> 2 powi (emax - 1)"
    using pow2_mono [of h "emax - 1"] h hi pos by simp
  have b2: "\<bar>2 * x\<bar> \<le> 2 powi (emax - 1)"
    using pow2_mono [of "h + 1" "emax - 1"] h hi pos unfolding p1 by simp
  have n2: "2 powi emin \<le> \<bar>2 * x\<bar>" using n by simp
  from round64_double [OF disjI2 [OF n] b1] obtain y
    where y: "round64 x = Finite y" "round64 (2 * x) = Finite (2 * y)" by blast
  from round64_double [OF disjI2 [OF n2] b2] y(2)
  have y4: "round64 (4 * x) = Finite (4 * y)" by simp
  have yl: "2 powi l \<le> y" by (rule round64_ge [OF y(1) lo l])
  have "(2::real) powi l \<le> 2 powi h" using lo hi by linarith
  then have "l \<le> h" by (rule pow2_le_imp_le)
  with l have eh: "emin \<le> h" by simp
  have "\<bar>x\<bar> \<le> 2 powi h" using hi pos by simp
  from round64_abs_le [OF y(1) this eh] have yh: "y \<le> 2 powi h" by simp
  from yl yh have w: "in_range l h y" by (simp add: in_range_def)
  have f: "is_float y" "is_float (2 * y)" "is_float (4 * y)"
    using is_float_round64 [OF y(1)] is_float_round64 [OF y(2)] is_float_round64 [OF y4]
    by simp_all
  from k y y4 w f show ?thesis by (auto simp add: scaled_def)
qed

lemma scaled_mul:
  assumes "scaled k l h a b" and "in_range l' h' c" and "k = 1 \<or> k = 2 \<or> k = 4"
    and "emin \<le> l + l'" and "h + h' \<le> emax - 2"
  shows "scaled k (l + l') (h + h') (float_mul a (Finite c)) (float_mul b (Finite c))"
proof -
  from assms(1) obtain y where y: "a = Finite y" "b = Finite (k * y)" "in_range l h y"
    by (auto simp add: scaled_def)
  from scaled_round [OF assms(3) in_range_mult [OF y(3) assms(2)] assms(4,5)]
  show ?thesis by (simp add: y mult.assoc)
qed

lemma scaled_doubled:
  assumes "scaled 2 l h a b" and "emin \<le> h"
  shows "doubled h a b"
proof -
  from assms obtain y where y: "a = Finite y" "b = Finite (2 * y)" "in_range l h y" "is_float y"
    by (auto simp add: scaled_def)
  from in_range_nonneg [OF y(3)] in_range_le [OF y(3)] have "\<bar>y\<bar> \<le> 2 powi h" by simp
  with y show ?thesis by (auto simp add: doubled_def)
qed

lemma doubled_mono: "doubled h a b \<Longrightarrow> h \<le> h' \<Longrightarrow> doubled h' a b"
  using pow2_mono [of h h'] by (fastforce simp add: doubled_def)

lemma doubled_round_grid:
  assumes "\<exists>M. x = real_of_int M * 2 powi (emin - 52)" and "\<bar>x\<bar> \<le> 2 powi h"
    and "emin \<le> h" and "h \<le> emax - 1"
  shows "doubled h (round64 x) (round64 (2 * x))"
proof -
  from assms(2) pow2_mono [OF assms(4)] have "\<bar>x\<bar> \<le> 2 powi (emax - 1)" by linarith
  from round64_double [OF disjI1 [OF assms(1)] this] obtain y
    where y: "round64 x = Finite y" "round64 (2 * x) = Finite (2 * y)" by blast
  from round64_abs_le [OF y(1) assms(2,3)] is_float_round64 [OF y(1)] y
  show ?thesis by (auto simp add: doubled_def)
qed

lemma grid_add:
  assumes "is_float a" and "is_float b"
  shows "\<exists>M. a + b = real_of_int M * 2 powi (emin - 52)"
    and "\<exists>M. a - b = real_of_int M * 2 powi (emin - 52)"
proof -
  from is_float_on_grid [OF assms(1)] obtain A where A: "a = real_of_int A * 2 powi (emin - 52)" ..
  from is_float_on_grid [OF assms(2)] obtain B where B: "b = real_of_int B * 2 powi (emin - 52)" ..
  have "a + b = real_of_int (A + B) * 2 powi (emin - 52)" by (simp add: A B distrib_right)
  then show "\<exists>M. a + b = real_of_int M * 2 powi (emin - 52)" ..
  have "a - b = real_of_int (A - B) * 2 powi (emin - 52)" by (simp add: A B left_diff_distrib)
  then show "\<exists>M. a - b = real_of_int M * 2 powi (emin - 52)" ..
qed

lemma doubled_add:
  assumes "doubled h a b" and "doubled h a' b'" and "emin \<le> h" and "h + 1 \<le> emax - 1"
  shows "doubled (h + 1) (float_add a a') (float_add b b')"
proof -
  from assms(1) obtain y where y: "a = Finite y" "b = Finite (2 * y)" "\<bar>y\<bar> \<le> 2 powi h" "is_float y"
    by (auto simp add: doubled_def)
  from assms(2) obtain z where z: "a' = Finite z" "b' = Finite (2 * z)" "\<bar>z\<bar> \<le> 2 powi h" "is_float z"
    by (auto simp add: doubled_def)
  have p: "(2::real) powi (h + 1) = 2 * 2 powi h" using pow2_add [of 1 h] by (simp add: add.commute)
  from y(3) z(3) have b: "\<bar>y + z\<bar> \<le> 2 powi (h + 1)" unfolding p by linarith
  from assms(3) have "emin \<le> h + 1" by simp
  from doubled_round_grid [OF grid_add(1) [OF y(4) z(4)] b this assms(4)]
  show ?thesis by (simp add: y z distrib_left)
qed

lemma doubled_sub:
  assumes "doubled h a b" and "doubled h a' b'" and "emin \<le> h" and "h + 1 \<le> emax - 1"
  shows "doubled (h + 1) (float_sub a a') (float_sub b b')"
proof -
  from assms(1) obtain y where y: "a = Finite y" "b = Finite (2 * y)" "\<bar>y\<bar> \<le> 2 powi h" "is_float y"
    by (auto simp add: doubled_def)
  from assms(2) obtain z where z: "a' = Finite z" "b' = Finite (2 * z)" "\<bar>z\<bar> \<le> 2 powi h" "is_float z"
    by (auto simp add: doubled_def)
  have p: "(2::real) powi (h + 1) = 2 * 2 powi h" using pow2_add [of 1 h] by (simp add: add.commute)
  from y(3) z(3) have b: "\<bar>y - z\<bar> \<le> 2 powi (h + 1)" unfolding p by linarith
  from assms(3) have "emin \<le> h + 1" by simp
  from doubled_round_grid [OF grid_add(2) [OF y(4) z(4)] b this assms(4)]
  show ?thesis by (simp add: y z float_sub_def right_diff_distrib)
qed

lemma doubled_float_mul:
  assumes "doubled h a b" and "emin \<le> h" and "h \<le> emax - 1"
  shows "b = float_mul (Finite 2) a"
proof -
  from assms(1) obtain y where y: "a = Finite y" "b = Finite (2 * y)" "\<bar>y\<bar> \<le> 2 powi h" "is_float y"
    by (auto simp add: doubled_def)
  from doubled_round_grid [OF is_float_on_grid [OF y(4)] y(3) assms(2,3)] y(4)
  have "round64 (2 * y) = Finite (2 * y)" by (auto simp add: doubled_def is_float_def)
  then show ?thesis by (simp add: y)
qed

lemma rate_in_range:
  assumes "valid_input p"
  shows "in_range (- 10) 0 (bank_fee_rate p)"
proof -
  from assms have "1 / 1000 \<le> bank_fee_rate p" "bank_fee_rate p \<le> 1 / 10"
    by (simp_all add: valid_input_def)
  then have "2 powi (- 10) \<le> bank_fee_rate p" "bank_fee_rate p \<le> 2 powi 0"
    by (simp_all add: power_int_minus_divide)
  then show ?thesis by (simp only: in_range_def) simp
qed

lemma phases_in_range:
  assumes "1 \<le> n" and "n \<le> 5"
  shows "in_range 0 3 (real_of_int n)"
  using assms by (simp add: in_range_def)

lemma months_in_range:
  assumes "1 \<le> a" and "a \<le> 36"
  shows "\<exists>d. int_truediv a 12 = Inr (Finite d) \<and> in_range (- 4) 2 d"
proof -
  from int_truediv_months [OF assms] obtain d
    where d: "int_truediv a 12 = Inr (Finite d)" "1 / 16 \<le> d" "d \<le> 4" by blast
  from d(2,3) have "2 powi (- 4) \<le> d" "d \<le> 2 powi 2"
    by (simp_all add: power_int_minus_divide)
  then have "in_range (- 4) 2 d" by (simp only: in_range_def) simp
  with d(1) show ?thesis by blast
qed

subsection \<open>At the ends of the exponent range\<close>

lemma round64_pow2:
  assumes "emin \<le> e" and "e \<le> emax"
  shows "round64 (2 powi e) = Finite (2 powi e)"
proof -
  have a: "2 powi emin \<le> \<bar>(2::real) powi e\<bar>" "\<bar>(2::real) powi e\<bar> \<le> 2 powi emax"
    using pow2_mono [OF assms(1)] pow2_mono [OF assms(2)] pow2_pos [of e] by simp_all
  have "(2::real) powi e = real_of_int 1 * 2 powi e" by simp
  from round53_exact [OF this] have "round53 (2 powi e) = 2 powi e" by simp
  with round64_normal [OF a] show ?thesis by simp
qed

lemma round64_overflow: "round64 (2 powi (emax + 1)) = PosInf"
proof -
  have "(2::real) powi emin < 2 powi (emax + 1)"
    by (intro power_int_strict_increasing) (simp_all add: emin_def emax_def)
  then have a: "\<not> \<bar>(2::real) powi (emax + 1)\<bar> < 2 powi emin"
    using pow2_pos [of "emax + 1"] by simp
  have "(2::real) powi (emax + 1) = real_of_int 1 * 2 powi (emax + 1)" by simp
  from round53_exact [OF this] have "round53 (2 powi (emax + 1)) = 2 powi (emax + 1)" by simp
  with a pow2_pos [of "emax + 1"] show ?thesis by (simp add: round64_def)
qed

lemma round64_minus: "round64 (- x) = float_neg (round64 x)"
  by (simp add: round64_def round53_minus round_half_even_minus flip: minus_divide_left)

lemma round64_subnormal_eval:
  assumes "\<bar>m\<bar> < 2 ^ 52"
  shows "round64 (m * 2 powi (emin - 52)) =
    Finite (real_of_int (round_half_even m) * 2 powi (emin - 52))"
proof -
  have p: "(2::real) powi emin = 2 ^ 52 * 2 powi (emin - 52)"
    using pow2_add [of 52 "emin - 52"] by simp
  have "\<bar>m * 2 powi (emin - 52)\<bar> < 2 powi emin"
    using assms pow2_pos [of "emin - 52"] unfolding p by (simp add: abs_mult)
  from round64_subnormal [OF this] pow2_pos [of "emin - 52"] show ?thesis by simp
qed

section \<open>The claims\<close>

text \<open>
  In the statements below, a formula of the specification such as
  \<^verbatim>\<open>apgValueOriginal * annualBankFeeRate * apgDurationOriginal\<close> is read in the
  program's arithmetic, left to right: \<open>float_mul (float_mul a b) c\<close>. An input of the
  block is written \<open>Finite x\<close>, the float that denotes the real \<open>x\<close>.
\<close>

text \<open>
  C1. On the concrete scenario (contract value 320,000,000, advance payment 0.40,
  performance guarantee 0.30, 12 and 6 months, 4 phases, phased performance guarantee
  0.10, 3 and 6 months, bank fee rate 0.01) the block returns with
  apg\_value\_orig = 128,000,000, pg\_value\_orig = 96,000,000, apg\_duration\_orig = 1.0,
  pg\_duration\_orig = 1.5, apg\_total\_cost\_orig = 1,280,000,
  pg\_total\_cost\_orig = 1,440,000, total\_cost\_orig = 2,720,000,
  phase\_contract\_value = 80,000,000, apg\_value\_phased = 32,000,000,
  pg\_value\_phased = 8,000,000, credit\_line\_phased = 40,000,000 and
  credit\_line\_orig = 128,000,000.
\<close>

theorem scenario_values: "\<exists>r. compute scenario = Inr r \<and>
     apg_value_orig r = Finite 128000000 \<and> pg_value_orig r = Finite 96000000 \<and>
     apg_duration_orig r = Finite 1 \<and> pg_duration_orig r = Finite (3 / 2) \<and>
     apg_total_cost_orig r = Finite 1280000 \<and> pg_total_cost_orig r = Finite 1440000 \<and>
     total_cost_orig r = Finite 2720000 \<and> phase_contract_value r = Finite 80000000 \<and>
     apg_value_phased r = Finite 32000000 \<and> pg_value_phased r = Finite 8000000 \<and>
     credit_line_phased r = Finite 40000000 \<and> credit_line_orig r = Finite 128000000"
proof -
  from compute_returns [OF valid_scenario] obtain r where r: "compute scenario = Inr r" ..
  note f = compute_Inr_fields [OF r]
  have n: "num_phases scenario = 4" by (simp add: scenario_def)
  have v1: "apg_value_orig r = Finite 128000000"
    by (simp add: f(1) scenario_ints scenario_floats float_eval)
  have v2: "pg_value_orig r = Finite 96000000"
    by (simp add: f(2) scenario_ints scenario_floats float_eval)
  have v3: "phase_contract_value r = Finite 80000000"
    using f(3) by (simp add: scenario_ints n float_eval)
  have v4: "apg_value_phased r = Finite 32000000"
    by (simp add: f(4) v3 scenario_floats float_eval)
  have v5: "pg_value_phased r = Finite 8000000"
    by (simp add: f(5) v3 scenario_floats float_eval)
  have d1: "apg_duration_orig r = Finite 1"
    using f(6) by (simp add: scenario_ints float_eval)
  have d2: "pg_duration_orig r = Finite (3 / 2)"
    using f(7) by (simp add: scenario_ints float_eval)
  have a1: "apg_annual_cost_orig r = Finite 1280000"
    by (simp add: f(10) v1 scenario_floats float_eval)
  have t1: "apg_total_cost_orig r = Finite 1280000"
    by (simp add: f(11) a1 d1 float_eval)
  have a2: "pg_annual_cost_orig r = Finite 960000"
    by (simp add: f(12) v2 scenario_floats float_eval)
  have t2: "pg_total_cost_orig r = Finite 1440000"
    by (simp add: f(13) a2 d2 float_eval)
  have t: "total_cost_orig r = Finite 2720000"
    by (simp add: f(14) t1 t2 float_eval)
  have c1: "credit_line_orig r = Finite 128000000"
    by (simp add: f(25) v1)
  have c2: "credit_line_phased r = Finite 40000000"
    by (simp add: f(26) v4 v5 float_eval)
  from r v1 v2 v3 v4 v5 d1 d2 t1 t2 t c1 c2 show ?thesis by blast
qed

text \<open>
  C2. For every valid input the block returns, and the variables of the original
  structure are those of the closed form: apg\_value\_orig is the contract value times the
  advance payment percentage, pg\_value\_orig the contract value times the performance
  guarantee percentage, apg\_duration\_orig the construction months divided by 12,
  pg\_duration\_orig the construction and defects liability months divided by 12, each
  annual cost the value times the bank fee rate, each total cost that product times the
  duration, and total\_cost\_orig the sum of the two total costs.
\<close>

theorem original_structure_closed_form:
  assumes "valid_input p"
  shows "\<exists>r. compute p = Inr r \<and>
    apg_value_orig r =
      float_mul (Finite (total_contract_value p)) (Finite (advance_payment_percent_orig p)) \<and>
    pg_value_orig r =
      float_mul (Finite (total_contract_value p)) (Finite (pg_percent_orig p)) \<and>
    int_truediv (construction_duration_orig p) 12 = Inr (apg_duration_orig r) \<and>
    int_truediv (construction_duration_orig p + dlp_duration_orig p) 12 =
      Inr (pg_duration_orig r) \<and>
    apg_annual_cost_orig r = float_mul (apg_value_orig r) (Finite (bank_fee_rate p)) \<and>
    apg_total_cost_orig r =
      float_mul (float_mul (apg_value_orig r) (Finite (bank_fee_rate p))) (apg_duration_orig r) \<and>
    pg_annual_cost_orig r = float_mul (pg_value_orig r) (Finite (bank_fee_rate p)) \<and>
    pg_total_cost_orig r =
      float_mul (float_mul (pg_value_orig r) (Finite (bank_fee_rate p))) (pg_duration_orig r) \<and>
    total_cost_orig r = float_add (apg_total_cost_orig r) (pg_total_cost_orig r)"
proof -
  from compute_returns [OF assms] obtain r where r: "compute p = Inr r" ..
  note f = compute_Inr_fields [OF r]
  show ?thesis
    by (rule exI [of _ r]) (simp add: r f(6,7) f(1,2,10-14))
qed

theorem original_structure_closed_form_witness:
  "valid_input scenario \<and>
   (\<exists>r. compute scenario = Inr r \<and>
     apg_value_orig r =
       float_mul (Finite (total_contract_value scenario)) (Finite (advance_payment_percent_orig scenario)) \<and>
     pg_value_orig r =
       float_mul (Finite (total_contract_value scenario)) (Finite (pg_percent_orig scenario)) \<and>
     int_truediv (construction_duration_orig scenario) 12 = Inr (apg_duration_orig r) \<and>
     int_truediv (construction_duration_orig scenario + dlp_duration_orig scenario) 12 =
       Inr (pg_duration_orig r) \<and>
     apg_annual_cost_orig r = float_mul (apg_value_orig r) (Finite (bank_fee_rate scenario)) \<and>
     apg_total_cost_orig r =
       float_mul (float_mul (apg_value_orig r) (Finite (bank_fee_rate scenario))) (apg_duration_orig r) \<and>
     pg_annual_cost_orig r = float_mul (pg_value_orig r) (Finite (bank_fee_rate scenario)) \<and>
     pg_total_cost_orig r =
       float_mul (float_mul (pg_value_orig r) (Finite (bank_fee_rate scenario))) (pg_duration_orig r) \<and>
     total_cost_orig r = float_add (apg_total_cost_orig r) (pg_total_cost_orig r))"
  by (rule conjI [OF valid_scenario original_structure_closed_form [OF valid_scenario]])

text \<open>
  C3. For every valid input the block returns, phase\_contract\_value is the contract value
  divided by the number of phases, and apg\_value\_phased is phase\_contract\_value times the
  advance payment percentage of the original structure. The input record has no advance
  payment percentage of the phased structure: the ten fields of \<open>InputParameters\<close>
  are all that \<open>compute\<close> reads.
\<close>

theorem phased_apg_reuses_original_percent:
  assumes "valid_input p"
  shows "\<exists>r. compute p = Inr r \<and>
    float_truediv_int (Finite (total_contract_value p)) (num_phases p) =
      Inr (phase_contract_value r) \<and>
    apg_value_phased r =
      float_mul (phase_contract_value r) (Finite (advance_payment_percent_orig p))"
proof -
  from compute_returns [OF assms] obtain r where r: "compute p = Inr r" ..
  note f = compute_Inr_fields [OF r]
  show ?thesis
    by (rule exI [of _ r]) (simp add: r f(3) f(4))
qed

theorem phased_apg_reuses_original_percent_witness:
  "valid_input scenario \<and>
   (\<exists>r. compute scenario = Inr r \<and>
     float_truediv_int (Finite (total_contract_value scenario)) (num_phases scenario) =
       Inr (phase_contract_value r) \<and>
     apg_value_phased r =
       float_mul (phase_contract_value r) (Finite (advance_payment_percent_orig scenario)))"
  by (rule conjI [OF valid_scenario phased_apg_reuses_original_percent [OF valid_scenario]])

text \<open>
  C4. For every valid input the block returns, the phased durations are the phased month
  counts divided by 12 as in the original structure, the costs of one phase are computed
  as the original ones (value times rate, times duration), each total phased cost is the
  cost of one phase times the number of phases, and total\_cost\_phased is the sum of the
  two total phased costs.
\<close>

theorem phased_structure_closed_form:
  assumes "valid_input p"
  shows "\<exists>r. compute p = Inr r \<and>
    int_truediv (construction_duration_phased p) 12 = Inr (apg_duration_phased r) \<and>
    int_truediv (construction_duration_phased p + dlp_duration_phased p) 12 =
      Inr (pg_duration_phased r) \<and>
    apg_annual_cost_phased r = float_mul (apg_value_phased r) (Finite (bank_fee_rate p)) \<and>
    apg_cost_per_phase r =
      float_mul (float_mul (apg_value_phased r) (Finite (bank_fee_rate p)))
        (apg_duration_phased r) \<and>
    pg_annual_cost_phased r = float_mul (pg_value_phased r) (Finite (bank_fee_rate p)) \<and>
    pg_cost_per_phase r =
      float_mul (float_mul (pg_value_phased r) (Finite (bank_fee_rate p)))
        (pg_duration_phased r) \<and>
    float_mul_int (apg_cost_per_phase r) (num_phases p) = Inr (apg_total_cost_phased r) \<and>
    float_mul_int (pg_cost_per_phase r) (num_phases p) = Inr (pg_total_cost_phased r) \<and>
    total_cost_phased r = float_add (apg_total_cost_phased r) (pg_total_cost_phased r)"
proof -
  from compute_returns [OF assms] obtain r where r: "compute p = Inr r" ..
  note f = compute_Inr_fields [OF r]
  have a: "apg_cost_per_phase r =
      float_mul (float_mul (apg_value_phased r) (Finite (bank_fee_rate p)))
        (apg_duration_phased r)"
    by (simp add: f(16) f(15))
  have b: "pg_cost_per_phase r =
      float_mul (float_mul (pg_value_phased r) (Finite (bank_fee_rate p)))
        (pg_duration_phased r)"
    by (simp add: f(18) f(17))
  from r f(8) f(9) f(15) a f(17) b f(19) f(20) f(21) show ?thesis by blast
qed

theorem phased_structure_closed_form_witness:
  "valid_input scenario \<and>
   (\<exists>r. compute scenario = Inr r \<and>
     int_truediv (construction_duration_phased scenario) 12 = Inr (apg_duration_phased r) \<and>
     int_truediv (construction_duration_phased scenario + dlp_duration_phased scenario) 12 =
       Inr (pg_duration_phased r) \<and>
     apg_annual_cost_phased r = float_mul (apg_value_phased r) (Finite (bank_fee_rate scenario)) \<and>
     apg_cost_per_phase r =
       float_mul (float_mul (apg_value_phased r) (Finite (bank_fee_rate scenario)))
         (apg_duration_phased r) \<and>
     pg_annual_cost_phased r = float_mul (pg_value_phased r) (Finite (bank_fee_rate scenario)) \<and>
     pg_cost_per_phase r =
       float_mul (float_mul (pg_value_phased r) (Finite (bank_fee_rate scenario)))
         (pg_duration_phased r) \<and>
     float_mul_int (apg_cost_per_phase r) (num_phases scenario) = Inr (apg_total_cost_phased r) \<and>
     float_mul_int (pg_cost_per_phase r) (num_phases scenario) = Inr (pg_total_cost_phased r) \<and>
     total_cost_phased r = float_add (apg_total_cost_phased r) (pg_total_cost_phased r))"
  by (rule conjI [OF valid_scenario phased_structure_closed_form [OF valid_scenario]])

text \<open>
  C5. For every valid input the block returns, and every savings and credit line variable
  is one subtraction or one sum of the variables before it, with nothing applied to it
  afterwards: apg\_savings, pg\_savings and total\_savings are the original cost minus the
  phased cost, credit\_line\_orig is apg\_value\_orig, credit\_line\_phased is
  apg\_value\_phased plus pg\_value\_phased, and credit\_line\_savings is credit\_line\_orig
  minus credit\_line\_phased.
\<close>

theorem savings_and_credit_line:
  assumes "valid_input p"
  shows "\<exists>r. compute p = Inr r \<and>
    apg_savings r = float_sub (apg_total_cost_orig r) (apg_total_cost_phased r) \<and>
    pg_savings r = float_sub (pg_total_cost_orig r) (pg_total_cost_phased r) \<and>
    total_savings r = float_sub (total_cost_orig r) (total_cost_phased r) \<and>
    credit_line_orig r = apg_value_orig r \<and>
    credit_line_phased r = float_add (apg_value_phased r) (pg_value_phased r) \<and>
    credit_line_savings r = float_sub (credit_line_orig r) (credit_line_phased r)"
proof -
  from compute_returns [OF assms] obtain r where r: "compute p = Inr r" ..
  note f = compute_Inr_fields [OF r]
  show ?thesis
    by (rule exI [of _ r]) (simp add: r f(22-27))
qed

theorem savings_and_credit_line_witness:
  "valid_input scenario \<and>
   (\<exists>r. compute scenario = Inr r \<and>
     apg_savings r = float_sub (apg_total_cost_orig r) (apg_total_cost_phased r) \<and>
     pg_savings r = float_sub (pg_total_cost_orig r) (pg_total_cost_phased r) \<and>
     total_savings r = float_sub (total_cost_orig r) (total_cost_phased r) \<and>
     credit_line_orig r = apg_value_orig r \<and>
     credit_line_phased r = float_add (apg_value_phased r) (pg_value_phased r) \<and>
     credit_line_savings r = float_sub (credit_line_orig r) (credit_line_phased r))"
  by (rule conjI [OF valid_scenario savings_and_credit_line [OF valid_scenario]])

text \<open>
  C6. For every input in the declared ranges whose contract value is a float (as every
  value of the widget is; the declared range alone would admit reals beyond the floats)
  the block returns, and total\_cost\_orig and total\_cost\_phased are not negative, in the
  program's comparison \<^verbatim>\<open>0 <= x\<close>. A total cost can be the positive infinity, when
  the sum of two costs near the largest float overflows; it is never the not-a-number.
\<close>

theorem total_costs_nonneg:
  assumes "valid_input p" and "is_float (total_contract_value p)"
  shows "\<exists>r. compute p = Inr r \<and> float_le (Finite 0) (total_cost_orig r) \<and>
    float_le (Finite 0) (total_cost_phased r)"
proof -
  from compute_returns [OF assms(1)] obtain r where r: "compute p = Inr r" ..
  note f = compute_Inr_fields [OF r]
  from assms(1) have T: "0 \<le> total_contract_value p"
    and adv: "0 \<le> advance_payment_percent_orig p"
    and pgo: "0 \<le> pg_percent_orig p"
    and pgp: "0 \<le> pg_percent_phased p"
    and rate: "0 < bank_fee_rate p"
    and n: "1 \<le> num_phases p" "num_phases p \<le> 5"
    and m: "1 \<le> construction_duration_orig p" "construction_duration_orig p \<le> 36"
      "1 \<le> construction_duration_orig p + dlp_duration_orig p"
      "construction_duration_orig p + dlp_duration_orig p \<le> 36"
      "1 \<le> construction_duration_phased p" "construction_duration_phased p \<le> 36"
      "1 \<le> construction_duration_phased p + dlp_duration_phased p"
      "construction_duration_phased p + dlp_duration_phased p \<le> 36"
    by (simp_all add: valid_input_def)
  from int_truediv_months [OF m(1,2)] f(6) obtain d1
    where d1: "apg_duration_orig r = Finite d1" "0 < d1" by auto
  from int_truediv_months [OF m(3,4)] f(7) obtain d2
    where d2: "pg_duration_orig r = Finite d2" "0 < d2" by auto
  from int_truediv_months [OF m(5,6)] f(8) obtain d3
    where d3: "apg_duration_phased r = Finite d3" "0 < d3" by auto
  from int_truediv_months [OF m(7,8)] f(9) obtain d4
    where d4: "pg_duration_phased r = Finite d4" "0 < d4" by auto
  have k: "0 < real_of_int (num_phases p)" using n by simp
  have "0 \<le> total_contract_value p / real_of_int (num_phases p)"
    and "total_contract_value p / real_of_int (num_phases p) \<le> total_contract_value p"
    using T n by (simp_all add: field_simps mult_le_cancel_left1)
  from round64_le_float [OF this assms(2)] f(3) obtain y
    where pcv: "phase_contract_value r = Finite y" "0 \<le> y"
    by (auto simp add: float_truediv_int_phases [OF n])
  have orig: "float_le (Finite 0) (total_cost_orig r)"
    unfolding f(14) f(11) f(13) f(10) f(12) f(1) f(2) d1 d2
    using T adv pgo rate d1(2) d2(2)
    by (intro float_add_nonneg float_mul_nonneg_pos float_mul_finite_nonneg)
  have tot: "apg_total_cost_phased r =
      float_mul (apg_cost_per_phase r) (Finite (real_of_int (num_phases p)))"
    "pg_total_cost_phased r =
      float_mul (pg_cost_per_phase r) (Finite (real_of_int (num_phases p)))"
    using f(19) f(20) by (simp_all add: float_mul_int_phases [OF n])
  have phased: "float_le (Finite 0) (total_cost_phased r)"
    unfolding f(21) tot f(16) f(18) f(15) f(17) f(4) f(5) pcv(1) d3 d4
    using pcv(2) adv pgp rate d3(2) d4(2) k
    by (intro float_add_nonneg float_mul_nonneg_pos float_mul_finite_nonneg)
  from r orig phased show ?thesis by blast
qed

theorem total_costs_nonneg_witness:
  "valid_input scenario \<and>
   is_float (total_contract_value scenario) \<and>
   (\<exists>r. compute scenario = Inr r \<and> float_le (Finite 0) (total_cost_orig r) \<and>
     float_le (Finite 0) (total_cost_phased r))"
proof -
  have h1: "valid_input scenario"
    by (rule valid_scenario)
  have h2: "is_float (total_contract_value scenario)"
    by (simp add: scenario_ints is_float_contract)
  from h1 h2 total_costs_nonneg [OF h1 h2]
  show ?thesis by (intro conjI)
qed

text \<open>
  C7, as amended. Scaling. The claim is that doubling the contract value doubles every
  value, cost, savings and credit line variable on every valid input. In binary64 that
  fails at the two ends of the exponent range (\<open>doubling_overflows\<close> and
  \<open>doubling_underflows\<close> below). What holds:
  for every valid input whose contract value lies between \<open>2 powi (- 900)\<close> and
  \<open>2 powi 1000\<close> and whose three percentages are each zero or at least
  \<open>2 powi (- 100)\<close>, the block returns on it and on the input with the contract value
  doubled and the other nine fields unchanged, and the second result has every value,
  every cost, every savings and every credit line variable equal to twice that of the
  first, in the program's \<^verbatim>\<open>2 * x\<close>, and the four durations unchanged. The bounds
  leave room to spare: they keep every product with a percentage, the rate and a duration
  above \<open>2 powi emin\<close>, and every sum and difference below \<open>2 powi (emax + 1)\<close>.
\<close>

theorem doubling_contract_value:
  assumes "valid_input p"
    and "in_range (- 900) 1000 (total_contract_value p)"
    and "in_range (- 100) 0 (advance_payment_percent_orig p)"
    and "in_range (- 100) 0 (pg_percent_orig p)"
    and "in_range (- 100) 0 (pg_percent_phased p)"
  shows "\<exists>r r2. compute p = Inr r \<and>
     compute (p\<lparr>total_contract_value := 2 * total_contract_value p\<rparr>) = Inr r2 \<and>
     apg_value_orig r2 = float_mul (Finite 2) (apg_value_orig r) \<and>
     pg_value_orig r2 = float_mul (Finite 2) (pg_value_orig r) \<and>
     phase_contract_value r2 = float_mul (Finite 2) (phase_contract_value r) \<and>
     apg_value_phased r2 = float_mul (Finite 2) (apg_value_phased r) \<and>
     pg_value_phased r2 = float_mul (Finite 2) (pg_value_phased r) \<and>
     apg_annual_cost_orig r2 = float_mul (Finite 2) (apg_annual_cost_orig r) \<and>
     apg_total_cost_orig r2 = float_mul (Finite 2) (apg_total_cost_orig r) \<and>
     pg_annual_cost_orig r2 = float_mul (Finite 2) (pg_annual_cost_orig r) \<and>
     pg_total_cost_orig r2 = float_mul (Finite 2) (pg_total_cost_orig r) \<and>
     total_cost_orig r2 = float_mul (Finite 2) (total_cost_orig r) \<and>
     apg_annual_cost_phased r2 = float_mul (Finite 2) (apg_annual_cost_phased r) \<and>
     apg_cost_per_phase r2 = float_mul (Finite 2) (apg_cost_per_phase r) \<and>
     pg_annual_cost_phased r2 = float_mul (Finite 2) (pg_annual_cost_phased r) \<and>
     pg_cost_per_phase r2 = float_mul (Finite 2) (pg_cost_per_phase r) \<and>
     apg_total_cost_phased r2 = float_mul (Finite 2) (apg_total_cost_phased r) \<and>
     pg_total_cost_phased r2 = float_mul (Finite 2) (pg_total_cost_phased r) \<and>
     total_cost_phased r2 = float_mul (Finite 2) (total_cost_phased r) \<and>
     apg_savings r2 = float_mul (Finite 2) (apg_savings r) \<and>
     pg_savings r2 = float_mul (Finite 2) (pg_savings r) \<and>
     total_savings r2 = float_mul (Finite 2) (total_savings r) \<and>
     credit_line_orig r2 = float_mul (Finite 2) (credit_line_orig r) \<and>
     credit_line_phased r2 = float_mul (Finite 2) (credit_line_phased r) \<and>
     credit_line_savings r2 = float_mul (Finite 2) (credit_line_savings r) \<and>
     apg_duration_orig r2 = apg_duration_orig r \<and>
     pg_duration_orig r2 = pg_duration_orig r \<and>
     apg_duration_phased r2 = apg_duration_phased r \<and>
     pg_duration_phased r2 = pg_duration_phased r"
proof -
  let ?p2 = "p\<lparr>total_contract_value := 2 * total_contract_value p\<rparr>"
  define T where "T = total_contract_value p"
  define k where "k = real_of_int (num_phases p)"
  from assms(1) have v2: "valid_input ?p2" by (simp add: valid_input_def)
  from compute_returns [OF assms(1)] obtain r where r: "compute p = Inr r" ..
  from compute_returns [OF v2] obtain r2 where r2: "compute ?p2 = Inr r2" ..
  note f = compute_Inr_fields [OF r]
  note g = compute_Inr_fields [OF r2, simplified]
  from assms(1) have n: "1 \<le> num_phases p" "num_phases p \<le> 5"
    and m: "1 \<le> construction_duration_orig p" "construction_duration_orig p \<le> 36"
      "1 \<le> construction_duration_orig p + dlp_duration_orig p"
      "construction_duration_orig p + dlp_duration_orig p \<le> 36"
      "1 \<le> construction_duration_phased p" "construction_duration_phased p \<le> 36"
      "1 \<le> construction_duration_phased p + dlp_duration_phased p"
      "construction_duration_phased p + dlp_duration_phased p \<le> 36"
    by (simp_all add: valid_input_def)
  have two: "(2::real) = 1 \<or> (2::real) = 2 \<or> (2::real) = 4" by simp
  have e: "emin \<le> - 1020" "1005 \<le> emax - 2" by (simp_all add: emin_def emax_def)
  note rate = rate_in_range [OF assms(1)]
  note kr = phases_in_range [OF n, folded k_def]
  from months_in_range [OF m(1,2)] f(6) g(6) obtain d1
    where d1: "apg_duration_orig r = Finite d1" "apg_duration_orig r2 = Finite d1"
      "in_range (- 4) 2 d1" by auto
  from months_in_range [OF m(3,4)] f(7) g(7) obtain d2
    where d2: "pg_duration_orig r = Finite d2" "pg_duration_orig r2 = Finite d2"
      "in_range (- 4) 2 d2" by auto
  from months_in_range [OF m(5,6)] f(8) g(8) obtain d3
    where d3: "apg_duration_phased r = Finite d3" "apg_duration_phased r2 = Finite d3"
      "in_range (- 4) 2 d3" by auto
  from months_in_range [OF m(7,8)] f(9) g(9) obtain d4
    where d4: "pg_duration_phased r = Finite d4" "pg_duration_phased r2 = Finite d4"
      "in_range (- 4) 2 d4" by auto
  \<comment> \<open>values\<close>
  have x1: "in_range (- 1000) 1000 (T * advance_payment_percent_orig p)"
    using in_range_mult [OF assms(2,3)] by (simp add: T_def)
  have x2: "in_range (- 1000) 1000 (T * pg_percent_orig p)"
    using in_range_mult [OF assms(2,4)] by (simp add: T_def)
  have x3: "in_range (- 903) 1000 (T / k)"
    using in_range_divide [OF assms(2), of k] n by (simp add: T_def k_def)
  have v1: "scaled 2 (- 1000) 1000 (apg_value_orig r) (apg_value_orig r2)"
    using scaled_round [OF two x1] e
    by (simp add: f(1) g(1) T_def mult.assoc)
  have v2: "scaled 2 (- 1000) 1000 (pg_value_orig r) (pg_value_orig r2)"
    using scaled_round [OF two x2] e
    by (simp add: f(2) g(2) T_def mult.assoc)
  have pcv: "phase_contract_value r = round64 (T / k)"
    "phase_contract_value r2 = round64 (2 * (T / k))"
    using f(3) g(3) by (simp_all add: float_truediv_int_phases [OF n] T_def k_def)
  have v3: "scaled 2 (- 903) 1000 (phase_contract_value r) (phase_contract_value r2)"
    using scaled_round [OF two x3] e by (simp add: pcv)
  have v4: "scaled 2 (- 1003) 1000 (apg_value_phased r) (apg_value_phased r2)"
    using scaled_mul [OF v3 assms(3) two] e by (simp add: f(4) g(4))
  have v5: "scaled 2 (- 1003) 1000 (pg_value_phased r) (pg_value_phased r2)"
    using scaled_mul [OF v3 assms(5) two] e by (simp add: f(5) g(5))
  \<comment> \<open>costs of the original structure\<close>
  have a1: "scaled 2 (- 1010) 1000 (apg_annual_cost_orig r) (apg_annual_cost_orig r2)"
    using scaled_mul [OF v1 rate two] e by (simp add: f(10) g(10))
  have t1: "scaled 2 (- 1014) 1002 (apg_total_cost_orig r) (apg_total_cost_orig r2)"
    using scaled_mul [OF a1 d1(3) two] e by (simp add: f(11) g(11) d1)
  have a2: "scaled 2 (- 1010) 1000 (pg_annual_cost_orig r) (pg_annual_cost_orig r2)"
    using scaled_mul [OF v2 rate two] e by (simp add: f(12) g(12))
  have t2: "scaled 2 (- 1014) 1002 (pg_total_cost_orig r) (pg_total_cost_orig r2)"
    using scaled_mul [OF a2 d2(3) two] e by (simp add: f(13) g(13) d2)
  \<comment> \<open>costs of the phased structure\<close>
  have a3: "scaled 2 (- 1013) 1000 (apg_annual_cost_phased r) (apg_annual_cost_phased r2)"
    using scaled_mul [OF v4 rate two] e by (simp add: f(15) g(15))
  have c3: "scaled 2 (- 1017) 1002 (apg_cost_per_phase r) (apg_cost_per_phase r2)"
    using scaled_mul [OF a3 d3(3) two] e by (simp add: f(16) g(16) d3)
  have a4: "scaled 2 (- 1013) 1000 (pg_annual_cost_phased r) (pg_annual_cost_phased r2)"
    using scaled_mul [OF v5 rate two] e by (simp add: f(17) g(17))
  have c4: "scaled 2 (- 1017) 1002 (pg_cost_per_phase r) (pg_cost_per_phase r2)"
    using scaled_mul [OF a4 d4(3) two] e by (simp add: f(18) g(18) d4)
  have tp: "apg_total_cost_phased r = float_mul (apg_cost_per_phase r) (Finite k)"
    "apg_total_cost_phased r2 = float_mul (apg_cost_per_phase r2) (Finite k)"
    "pg_total_cost_phased r = float_mul (pg_cost_per_phase r) (Finite k)"
    "pg_total_cost_phased r2 = float_mul (pg_cost_per_phase r2) (Finite k)"
    using f(19,20) g(19,20) by (simp_all add: float_mul_int_phases [OF n] k_def)
  have t3: "scaled 2 (- 1017) 1005 (apg_total_cost_phased r) (apg_total_cost_phased r2)"
    using scaled_mul [OF c3 kr two] e by (simp add: tp)
  have t4: "scaled 2 (- 1017) 1005 (pg_total_cost_phased r) (pg_total_cost_phased r2)"
    using scaled_mul [OF c4 kr two] e by (simp add: tp)
  \<comment> \<open>every product, as a doubled pair below one bound\<close>
  have h: "emin \<le> 1000" "emin \<le> 1002" "emin \<le> 1005" "emin \<le> 1006"
    "(1000::int) \<le> 1005" "(1002::int) \<le> 1005"
    "1005 + 1 \<le> emax - 1" "1006 + 1 \<le> emax - 1" "1005 \<le> emax - 1" "1006 \<le> emax - 1"
    "1007 \<le> emax - 1" "emin \<le> 1007"
    by (simp_all add: emin_def emax_def)
  note D = scaled_doubled [THEN doubled_mono]
  have dv1: "doubled 1005 (apg_value_orig r) (apg_value_orig r2)" by (rule D [OF v1 h(1,5)])
  have dv2: "doubled 1005 (pg_value_orig r) (pg_value_orig r2)" by (rule D [OF v2 h(1,5)])
  have dv3: "doubled 1005 (phase_contract_value r) (phase_contract_value r2)"
    by (rule D [OF v3 h(1,5)])
  have dv4: "doubled 1005 (apg_value_phased r) (apg_value_phased r2)" by (rule D [OF v4 h(1,5)])
  have dv5: "doubled 1005 (pg_value_phased r) (pg_value_phased r2)" by (rule D [OF v5 h(1,5)])
  have da1: "doubled 1005 (apg_annual_cost_orig r) (apg_annual_cost_orig r2)"
    by (rule D [OF a1 h(1,5)])
  have dt1: "doubled 1005 (apg_total_cost_orig r) (apg_total_cost_orig r2)"
    by (rule D [OF t1 h(2,6)])
  have da2: "doubled 1005 (pg_annual_cost_orig r) (pg_annual_cost_orig r2)"
    by (rule D [OF a2 h(1,5)])
  have dt2: "doubled 1005 (pg_total_cost_orig r) (pg_total_cost_orig r2)"
    by (rule D [OF t2 h(2,6)])
  have da3: "doubled 1005 (apg_annual_cost_phased r) (apg_annual_cost_phased r2)"
    by (rule D [OF a3 h(1,5)])
  have dc3: "doubled 1005 (apg_cost_per_phase r) (apg_cost_per_phase r2)"
    by (rule D [OF c3 h(2,6)])
  have da4: "doubled 1005 (pg_annual_cost_phased r) (pg_annual_cost_phased r2)"
    by (rule D [OF a4 h(1,5)])
  have dc4: "doubled 1005 (pg_cost_per_phase r) (pg_cost_per_phase r2)"
    by (rule D [OF c4 h(2,6)])
  have dt3: "doubled 1005 (apg_total_cost_phased r) (apg_total_cost_phased r2)"
    by (rule scaled_doubled [OF t3 h(3)])
  have dt4: "doubled 1005 (pg_total_cost_phased r) (pg_total_cost_phased r2)"
    by (rule scaled_doubled [OF t4 h(3)])
  \<comment> \<open>sums and differences\<close>
  have dto: "doubled 1006 (total_cost_orig r) (total_cost_orig r2)"
    unfolding f(14) g(14) using doubled_add [OF dt1 dt2 h(3,7)] by simp
  have dtp: "doubled 1006 (total_cost_phased r) (total_cost_phased r2)"
    unfolding f(21) g(21) using doubled_add [OF dt3 dt4 h(3,7)] by simp
  have ds1: "doubled 1006 (apg_savings r) (apg_savings r2)"
    unfolding f(22) g(22) using doubled_sub [OF dt1 dt3 h(3,7)] by simp
  have ds2: "doubled 1006 (pg_savings r) (pg_savings r2)"
    unfolding f(23) g(23) using doubled_sub [OF dt2 dt4 h(3,7)] by simp
  have ds3: "doubled 1007 (total_savings r) (total_savings r2)"
    unfolding f(24) g(24) using doubled_sub [OF dto dtp h(4,8)] by simp
  have dl1: "doubled 1005 (credit_line_orig r) (credit_line_orig r2)"
    unfolding f(25) g(25) by (rule dv1)
  have dl2: "doubled 1006 (credit_line_phased r) (credit_line_phased r2)"
    unfolding f(26) g(26) using doubled_add [OF dv4 dv5 h(3,7)] by simp
  have dl3: "doubled 1007 (credit_line_savings r) (credit_line_savings r2)"
    unfolding f(27) g(27)
    using doubled_sub [OF doubled_mono [OF dl1, of 1006] dl2 h(4,8)] by simp
  note A = doubled_float_mul [OF _ h(3,9)]
  note B = doubled_float_mul [OF _ h(4,10)]
  note C = doubled_float_mul [OF _ h(12,11)]
  note facts = r r2 A [OF dv1] A [OF dv2] A [OF dv3] A [OF dv4] A [OF dv5]
    A [OF da1] A [OF dt1] A [OF da2] A [OF dt2] B [OF dto]
    A [OF da3] A [OF dc3] A [OF da4] A [OF dc4] A [OF dt3] A [OF dt4] B [OF dtp]
    B [OF ds1] B [OF ds2] C [OF ds3] A [OF dl1] B [OF dl2] C [OF dl3]
    d1(1,2) d2(1,2) d3(1,2) d4(1,2)
  show ?thesis
    by (rule exI [of _ r], rule exI [of _ r2]) (simp only: facts simp_thms)
qed

theorem doubling_contract_value_witness:
  "valid_input scenario \<and>
   in_range (- 900) 1000 (total_contract_value scenario) \<and>
   in_range (- 100) 0 (advance_payment_percent_orig scenario) \<and>
   in_range (- 100) 0 (pg_percent_orig scenario) \<and>
   in_range (- 100) 0 (pg_percent_phased scenario) \<and>
   (\<exists>r r2. compute scenario = Inr r \<and>
      compute (scenario\<lparr>total_contract_value := 2 * total_contract_value scenario\<rparr>) = Inr r2 \<and>
      apg_value_orig r2 = float_mul (Finite 2) (apg_value_orig r) \<and>
      pg_value_orig r2 = float_mul (Finite 2) (pg_value_orig r) \<and>
      phase_contract_value r2 = float_mul (Finite 2) (phase_contract_value r) \<and>
      apg_value_phased r2 = float_mul (Finite 2) (apg_value_phased r) \<and>
      pg_value_phased r2 = float_mul (Finite 2) (pg_value_phased r) \<and>
      apg_annual_cost_orig r2 = float_mul (Finite 2) (apg_annual_cost_orig r) \<and>
      apg_total_cost_orig r2 = float_mul (Finite 2) (apg_total_cost_orig r) \<and>
      pg_annual_cost_orig r2 = float_mul (Finite 2) (pg_annual_cost_orig r) \<and>
      pg_total_cost_orig r2 = float_mul (Finite 2) (pg_total_cost_orig r) \<and>
      total_cost_orig r2 = float_mul (Finite 2) (total_cost_orig r) \<and>
      apg_annual_cost_phased r2 = float_mul (Finite 2) (apg_annual_cost_phased r) \<and>
      apg_cost_per_phase r2 = float_mul (Finite 2) (apg_cost_per_phase r) \<and>
      pg_annual_cost_phased r2 = float_mul (Finite 2) (pg_annual_cost_phased r) \<and>
      pg_cost_per_phase r2 = float_mul (Finite 2) (pg_cost_per_phase r) \<and>
      apg_total_cost_phased r2 = float_mul (Finite 2) (apg_total_cost_phased r) \<and>
      pg_total_cost_phased r2 = float_mul (Finite 2) (pg_total_cost_phased r) \<and>
      total_cost_phased r2 = float_mul (Finite 2) (total_cost_phased r) \<and>
      apg_savings r2 = float_mul (Finite 2) (apg_savings r) \<and>
      pg_savings r2 = float_mul (Finite 2) (pg_savings r) \<and>
      total_savings r2 = float_mul (Finite 2) (total_savings r) \<and>
      credit_line_orig r2 = float_mul (Finite 2) (credit_line_orig r) \<and>
      credit_line_phased r2 = float_mul (Finite 2) (credit_line_phased r) \<and>
      credit_line_savings r2 = float_mul (Finite 2) (credit_line_savings r) \<and>
      apg_duration_orig r2 = apg_duration_orig r \<and>
      pg_duration_orig r2 = pg_duration_orig r \<and>
      apg_duration_phased r2 = apg_duration_phased r \<and>
      pg_duration_phased r2 = pg_duration_phased r)"
proof -
  have h1: "valid_input scenario"
    by (rule valid_scenario)
  have h2: "in_range (- 900) 1000 (total_contract_value scenario)"
    by (simp add: in_range_def scenario_ints scenario_floats)
  have h3: "in_range (- 100) 0 (advance_payment_percent_orig scenario)"
    by (simp add: in_range_def scenario_ints scenario_floats)
  have h4: "in_range (- 100) 0 (pg_percent_orig scenario)"
    by (simp add: in_range_def scenario_ints scenario_floats)
  have h5: "in_range (- 100) 0 (pg_percent_phased scenario)"
    by (simp add: in_range_def scenario_ints scenario_floats)
  from h1 h2 h3 h4 h5 doubling_contract_value [OF h1 h2 h3 h4 h5]
  show ?thesis by (intro conjI)
qed

text \<open>
  The claim C7 as written fails where the doubled value leaves the floats. On the valid
  input with a contract value of \<open>2 powi 1022\<close> (about 4.5e307), both percentages that
  enter credit\_line\_phased equal to 1 and one phase, credit\_line\_savings is
  \<open>- (2 powi 1022)\<close>; with the contract value doubled it is the negative infinity, where
  twice the first is the float \<open>- (2 powi 1023)\<close>: the sum apg\_value\_phased +
  pg\_value\_phased overflows.
\<close>

theorem doubling_overflows:
  "valid_input (scenario\<lparr>total_contract_value := 2 powi (emax - 1),
      advance_payment_percent_orig := 1, pg_percent_phased := 1, num_phases := 1\<rparr>) \<and>
   (\<exists>r r2.
      compute (scenario\<lparr>total_contract_value := 2 powi (emax - 1),
        advance_payment_percent_orig := 1, pg_percent_phased := 1, num_phases := 1\<rparr>) = Inr r \<and>
      compute (scenario\<lparr>total_contract_value := 2 * 2 powi (emax - 1),
        advance_payment_percent_orig := 1, pg_percent_phased := 1, num_phases := 1\<rparr>) = Inr r2 \<and>
      credit_line_savings r = Finite (- (2 powi (emax - 1))) \<and>
      credit_line_savings r2 = NegInf \<and>
      float_mul (Finite 2) (credit_line_savings r) = Finite (- (2 powi emax)) \<and>
      credit_line_savings r2 \<noteq> float_mul (Finite 2) (credit_line_savings r))"
proof -
  let ?b1 = "scenario\<lparr>total_contract_value := 2 powi (emax - 1),
      advance_payment_percent_orig := 1, pg_percent_phased := 1, num_phases := 1\<rparr>"
  let ?b2 = "scenario\<lparr>total_contract_value := 2 * 2 powi (emax - 1),
      advance_payment_percent_orig := 1, pg_percent_phased := 1, num_phases := 1\<rparr>"
  have e: "emin \<le> emax - 1" "emax - 1 \<le> emax" "emin \<le> emax" "emax \<le> emax"
    by (simp_all add: emin_def emax_def)
  have dbl: "2 * (2::real) powi (emax - 1) = 2 powi emax"
    using pow2_add [of 1 "emax - 1"] by simp
  have sum1: "(2::real) powi (emax - 1) + 2 powi (emax - 1) = 2 powi emax"
    using dbl by simp
  have sum2: "(2::real) powi emax + 2 powi emax = 2 powi (emax + 1)"
    using pow2_add [of 1 emax] by (simp add: add.commute)
  have diff: "(2::real) powi (emax - 1) - 2 powi emax = - (2 powi (emax - 1))"
    using dbl by simp
  have v1: "valid_input ?b1"
    unfolding valid_input_def using pow2_pos [of "emax - 1"]
    by (simp add: scenario_floats scenario_ints)
  have v2: "valid_input ?b2"
    unfolding valid_input_def using pow2_pos [of "emax - 1"]
    by (simp add: scenario_floats scenario_ints)
  from compute_returns [OF v1] obtain r where r: "compute ?b1 = Inr r" ..
  from compute_returns [OF v2] obtain r2 where r2: "compute ?b2 = Inr r2" ..
  note f = compute_Inr_fields [OF r]
  note g = compute_Inr_fields [OF r2]
  have one: "float_truediv_int (Finite a) 1 = Inr (round64 a)" for a
    using float_truediv_int_phases [of 1 a] by simp
  have clo: "credit_line_orig r = Finite (2 powi (emax - 1))"
    by (simp add: f(25) f(1) round64_pow2 [OF e(1,2)])
  have pcv: "phase_contract_value r = Finite (2 powi (emax - 1))"
    using f(3) by (simp add: one round64_pow2 [OF e(1,2)])
  have clp: "credit_line_phased r = Finite (2 powi emax)"
    by (simp add: f(26) f(4) f(5) pcv round64_pow2 [OF e(1,2)] sum1 round64_pow2 [OF e(3,4)])
  have cls: "credit_line_savings r = Finite (- (2 powi (emax - 1)))"
    using round64_minus [of "2 powi (emax - 1)"]
    by (simp add: f(27) clo clp float_sub_def diff round64_pow2 [OF e(1,2)])
  have clo2: "credit_line_orig r2 = Finite (2 powi emax)"
    by (simp add: g(25) g(1) dbl round64_pow2 [OF e(3,4)])
  have pcv2: "phase_contract_value r2 = Finite (2 powi emax)"
    using g(3) by (simp add: one dbl round64_pow2 [OF e(3,4)])
  have clp2: "credit_line_phased r2 = PosInf"
    by (simp add: g(26) g(4) g(5) pcv2 round64_pow2 [OF e(3,4)] sum2 round64_overflow)
  have cls2: "credit_line_savings r2 = NegInf"
    by (simp add: g(27) clo2 clp2 float_sub_def)
  have m: "float_mul (Finite 2) (credit_line_savings r) = Finite (- (2 powi emax))"
    using round64_minus [of "2 powi emax"]
    by (simp add: cls dbl round64_pow2 [OF e(3,4)])
  from v1 r r2 cls cls2 m show ?thesis by auto
qed

text \<open>
  It fails at the other end too, where rounding is to a multiple of \<open>2 powi (- 1074)\<close>
  and no longer commutes with doubling: on the scenario with a contract value of
  \<open>2 powi (- 1074)\<close> (the float 5e-324) apg\_value\_orig is 0.0, and with the contract
  value doubled it is 5e-324, not twice 0.0.
\<close>

lemma doubling_underflows:
  "valid_input (scenario\<lparr>total_contract_value := 2 powi (emin - 52)\<rparr>) \<and>
   is_float (2 powi (emin - 52)) \<and>
   (\<exists>r r2.
      compute (scenario\<lparr>total_contract_value := 2 powi (emin - 52)\<rparr>) = Inr r \<and>
      compute (scenario\<lparr>total_contract_value := 2 * 2 powi (emin - 52)\<rparr>) = Inr r2 \<and>
      apg_value_orig r = Finite 0 \<and>
      apg_value_orig r2 = Finite (2 powi (emin - 52)) \<and>
      float_mul (Finite 2) (apg_value_orig r) = Finite 0 \<and>
      apg_value_orig r2 \<noteq> float_mul (Finite 2) (apg_value_orig r))"
proof -
  define q where "q = (2::real) powi (emin - 52)"
  let ?u1 = "scenario\<lparr>total_contract_value := q\<rparr>"
  let ?u2 = "scenario\<lparr>total_contract_value := 2 * q\<rparr>"
  have qpos: "0 < q" by (simp add: q_def pow2_pos)
  note sub = round64_subnormal_eval [folded q_def]
  have n: "num_phases scenario = 4" by (simp add: scenario_def)
  have v1: "valid_input ?u1"
    unfolding valid_input_def using qpos by (simp add: scenario_floats scenario_ints n)
  have v2: "valid_input ?u2"
    unfolding valid_input_def using qpos by (simp add: scenario_floats scenario_ints n)
  have fl: "is_float q"
    unfolding is_float_def using sub [of 1] by (simp add: round_half_even_def)
  from compute_returns [OF v1] obtain r where r: "compute ?u1 = Inr r" ..
  from compute_returns [OF v2] obtain r2 where r2: "compute ?u2 = Inr r2" ..
  note f = compute_Inr_fields [OF r]
  note g = compute_Inr_fields [OF r2]
  have "apg_value_orig r = round64 (3602879701896397 / 9007199254740992 * q)"
    by (simp add: f(1) scenario_floats mult.commute)
  then have a1: "apg_value_orig r = Finite 0"
    using sub [of "3602879701896397 / 9007199254740992"]
    by (simp add: round_half_even_def)
  have "apg_value_orig r2 = round64 (2 * (3602879701896397 / 9007199254740992) * q)"
    by (simp add: g(1) scenario_floats mult_ac)
  then have a2: "apg_value_orig r2 = Finite q"
    using sub [of "2 * (3602879701896397 / 9007199254740992)"]
    by (simp add: round_half_even_def)
  have tw: "float_mul (Finite 2) (apg_value_orig r) = Finite 0"
    by (simp add: a1 round64_zero)
  have ne: "apg_value_orig r2 \<noteq> float_mul (Finite 2) (apg_value_orig r)"
    using qpos by (simp add: a2 tw)
  from v1 fl r r2 a1 a2 tw ne show ?thesis unfolding q_def by blast
qed

text \<open>
  C8. The block is a function of its ten inputs alone, and on every input in the declared
  ranges it returns: there is exactly one result, and the division by the number of
  phases, the one division by a variable, does not raise, the number of phases being at
  least 1. (By \<open>compute_raises_iff\<close> the block raises \<^verbatim>\<open>ZeroDivisionError\<close> exactly
  when the number of phases is zero.) That two runs on one input give one output is what
  being a function of the input says; the model has no state for a run to leave behind.
\<close>

theorem compute_total_deterministic:
  assumes "valid_input p"
  shows "(\<exists>!r. compute p = Inr r) \<and>
    (\<exists>v. float_truediv_int (Finite (total_contract_value p)) (num_phases p) = Inr v)"
proof -
  from compute_returns [OF assms] obtain r where r: "compute p = Inr r" ..
  then have "\<exists>!r. compute p = Inr r" by simp
  with compute_Inr_fields(3) [OF r] show ?thesis by blast
qed

theorem compute_total_deterministic_witness:
  "valid_input scenario \<and>
   ((\<exists>!r. compute scenario = Inr r) \<and>
     (\<exists>v. float_truediv_int (Finite (total_contract_value scenario)) (num_phases scenario) = Inr v))"
  by (rule conjI [OF valid_scenario compute_total_deterministic [OF valid_scenario]])

text \<open>
  C9, as amended. The claim is that the three total phased costs do not depend on the
  number of phases, the division by it cancelling the multiplication by it exactly. In
  the program's arithmetic the division by 3 or by 5 is rounded, and the cancellation is
  exact for the powers of two only, and away from the subnormal numbers only. What holds:
  for every valid input whose contract value is a float between \<open>2 powi (- 900)\<close> and
  \<open>2 powi 1000\<close>, whose number of phases is 1, 2 or 4 and whose advance payment and
  phased performance guarantee percentages are each zero or at least \<open>2 powi (- 100)\<close>,
  the block returns, apg\_total\_cost\_phased is contract value times advance payment
  percentage times bank fee rate times the phased construction duration in years,
  pg\_total\_cost\_phased is contract value times phased performance guarantee percentage
  times bank fee rate times the phased guarantee duration, and total\_cost\_phased is
  their sum; none of the three right-hand sides mentions the number of phases.
\<close>

theorem phased_totals_independent_pow2:
  assumes "valid_input p" and "is_float (total_contract_value p)"
    and "num_phases p = 1 \<or> num_phases p = 2 \<or> num_phases p = 4"
    and "in_range (- 900) 1000 (total_contract_value p)"
    and "in_range (- 100) 0 (advance_payment_percent_orig p)"
    and "in_range (- 100) 0 (pg_percent_phased p)"
  shows "\<exists>r. compute p = Inr r \<and>
     apg_total_cost_phased r =
       float_mul (float_mul (float_mul (Finite (total_contract_value p))
         (Finite (advance_payment_percent_orig p))) (Finite (bank_fee_rate p)))
         (apg_duration_phased r) \<and>
     pg_total_cost_phased r =
       float_mul (float_mul (float_mul (Finite (total_contract_value p))
         (Finite (pg_percent_phased p))) (Finite (bank_fee_rate p)))
         (pg_duration_phased r) \<and>
     total_cost_phased r = float_add (apg_total_cost_phased r) (pg_total_cost_phased r) \<and>
     int_truediv (construction_duration_phased p) 12 = Inr (apg_duration_phased r) \<and>
     int_truediv (construction_duration_phased p + dlp_duration_phased p) 12 =
       Inr (pg_duration_phased r)"
proof -
  define T where "T = total_contract_value p"
  define k where "k = real_of_int (num_phases p)"
  from compute_returns [OF assms(1)] obtain r where r: "compute p = Inr r" ..
  note f = compute_Inr_fields [OF r]
  from assms(1) have n: "1 \<le> num_phases p" "num_phases p \<le> 5"
    and m: "1 \<le> construction_duration_phased p" "construction_duration_phased p \<le> 36"
      "1 \<le> construction_duration_phased p + dlp_duration_phased p"
      "construction_duration_phased p + dlp_duration_phased p \<le> 36"
    by (simp_all add: valid_input_def)
  have k: "k = 1 \<or> k = 2 \<or> k = 4" using assms(3) by (auto simp add: k_def)
  then have k0: "k \<noteq> 0" by auto
  have e: "emin \<le> - 1020" "1005 \<le> emax - 2" by (simp_all add: emin_def emax_def)
  note rate = rate_in_range [OF assms(1)]
  from months_in_range [OF m(1,2)] f(8) obtain d3
    where d3: "apg_duration_phased r = Finite d3" "in_range (- 4) 2 d3" by auto
  from months_in_range [OF m(3,4)] f(9) obtain d4
    where d4: "pg_duration_phased r = Finite d4" "in_range (- 4) 2 d4" by auto
  have x0: "in_range (- 903) 1000 (T / k)"
    using in_range_divide [OF assms(4), of k] n by (simp add: T_def k_def)
  have pcv: "phase_contract_value r = round64 (T / k)"
    using f(3) by (simp add: float_truediv_int_phases [OF n] T_def k_def)
  have "round64 (k * (T / k)) = Finite T"
    using assms(2) k0 by (simp add: is_float_def T_def)
  with scaled_round [OF k x0] e
  have s0: "scaled k (- 903) 1000 (phase_contract_value r) (Finite T)" by (simp add: pcv)
  have s1: "scaled k (- 1003) 1000 (apg_value_phased r)
      (float_mul (Finite T) (Finite (advance_payment_percent_orig p)))"
    using scaled_mul [OF s0 assms(5) k] e by (simp add: f(4))
  have s2: "scaled k (- 1013) 1000 (apg_annual_cost_phased r)
      (float_mul (float_mul (Finite T) (Finite (advance_payment_percent_orig p)))
        (Finite (bank_fee_rate p)))"
    using scaled_mul [OF s1 rate k] e by (simp add: f(15))
  have s3: "scaled k (- 1017) 1002 (apg_cost_per_phase r)
      (float_mul (float_mul (float_mul (Finite T) (Finite (advance_payment_percent_orig p)))
        (Finite (bank_fee_rate p))) (Finite d3))"
    using scaled_mul [OF s2 d3(2) k] e by (simp add: f(16) d3(1))
  have q1: "scaled k (- 1003) 1000 (pg_value_phased r)
      (float_mul (Finite T) (Finite (pg_percent_phased p)))"
    using scaled_mul [OF s0 assms(6) k] e by (simp add: f(5))
  have q2: "scaled k (- 1013) 1000 (pg_annual_cost_phased r)
      (float_mul (float_mul (Finite T) (Finite (pg_percent_phased p)))
        (Finite (bank_fee_rate p)))"
    using scaled_mul [OF q1 rate k] e by (simp add: f(17))
  have q3: "scaled k (- 1017) 1002 (pg_cost_per_phase r)
      (float_mul (float_mul (float_mul (Finite T) (Finite (pg_percent_phased p)))
        (Finite (bank_fee_rate p))) (Finite d4))"
    using scaled_mul [OF q2 d4(2) k] e by (simp add: f(18) d4(1))
  have cancel: "float_mul a (Finite k) = b" if "scaled k l h a b" for a b l h
  proof -
    from that obtain y where y: "a = Finite y" "b = Finite (k * y)" "is_float (k * y)"
      by (auto simp add: scaled_def)
    then show ?thesis by (simp add: is_float_def mult.commute)
  qed
  have a: "apg_total_cost_phased r =
       float_mul (float_mul (float_mul (Finite (total_contract_value p))
         (Finite (advance_payment_percent_orig p))) (Finite (bank_fee_rate p)))
         (apg_duration_phased r)"
    using f(19) cancel [OF s3]
    by (simp add: float_mul_int_phases [OF n] d3(1) T_def k_def)
  have b: "pg_total_cost_phased r =
       float_mul (float_mul (float_mul (Finite (total_contract_value p))
         (Finite (pg_percent_phased p))) (Finite (bank_fee_rate p)))
         (pg_duration_phased r)"
    using f(20) cancel [OF q3]
    by (simp add: float_mul_int_phases [OF n] d4(1) T_def k_def)
  from r a b f(21) f(8) f(9) show ?thesis by blast
qed

theorem phased_totals_independent_pow2_witness:
  "valid_input scenario \<and>
   is_float (total_contract_value scenario) \<and>
   (num_phases scenario = 1 \<or> num_phases scenario = 2 \<or> num_phases scenario = 4) \<and>
   in_range (- 900) 1000 (total_contract_value scenario) \<and>
   in_range (- 100) 0 (advance_payment_percent_orig scenario) \<and>
   in_range (- 100) 0 (pg_percent_phased scenario) \<and>
   (\<exists>r. compute scenario = Inr r \<and>
      apg_total_cost_phased r =
        float_mul (float_mul (float_mul (Finite (total_contract_value scenario))
          (Finite (advance_payment_percent_orig scenario))) (Finite (bank_fee_rate scenario)))
          (apg_duration_phased r) \<and>
      pg_total_cost_phased r =
        float_mul (float_mul (float_mul (Finite (total_contract_value scenario))
          (Finite (pg_percent_phased scenario))) (Finite (bank_fee_rate scenario)))
          (pg_duration_phased r) \<and>
      total_cost_phased r = float_add (apg_total_cost_phased r) (pg_total_cost_phased r) \<and>
      int_truediv (construction_duration_phased scenario) 12 = Inr (apg_duration_phased r) \<and>
      int_truediv (construction_duration_phased scenario + dlp_duration_phased scenario) 12 =
        Inr (pg_duration_phased r))"
proof -
  have h1: "valid_input scenario"
    by (rule valid_scenario)
  have h2: "is_float (total_contract_value scenario)"
    by (simp add: scenario_ints is_float_contract)
  have h3: "num_phases scenario = 1 \<or> num_phases scenario = 2 \<or> num_phases scenario = 4"
    by (simp add: scenario_def)
  have h4: "in_range (- 900) 1000 (total_contract_value scenario)"
    by (simp add: in_range_def scenario_ints scenario_floats)
  have h5: "in_range (- 100) 0 (advance_payment_percent_orig scenario)"
    by (simp add: in_range_def scenario_ints scenario_floats)
  have h6: "in_range (- 100) 0 (pg_percent_phased scenario)"
    by (simp add: in_range_def scenario_ints scenario_floats)
  from h1 h2 h3 h4 h5 h6 phased_totals_independent_pow2 [OF h1 h2 h3 h4 h5 h6]
  show ?thesis by (intro conjI)
qed

text \<open>
  The claim C9 as written fails on the scenario with 3 phases: apg\_total\_cost\_phased is
  320000.00000000006 (320000 and one unit in the last place), the closed form is 320000,
  and with 1 phase the same inputs give 320000.
\<close>

theorem phased_totals_three_phases:
  "valid_input (scenario\<lparr>num_phases := 3\<rparr>) \<and>
   (\<exists>r. compute (scenario\<lparr>num_phases := 3\<rparr>) = Inr r \<and>
      apg_total_cost_phased r = Finite (5497558138880001 / 17179869184) \<and>
      float_mul (float_mul (float_mul (Finite (total_contract_value scenario))
          (Finite (advance_payment_percent_orig scenario))) (Finite (bank_fee_rate scenario)))
        (apg_duration_phased r) = Finite 320000 \<and>
      apg_total_cost_phased r \<noteq>
        float_mul (float_mul (float_mul (Finite (total_contract_value scenario))
            (Finite (advance_payment_percent_orig scenario))) (Finite (bank_fee_rate scenario)))
          (apg_duration_phased r)) \<and>
   (\<exists>r. compute (scenario\<lparr>num_phases := 1\<rparr>) = Inr r \<and>
      apg_total_cost_phased r = Finite 320000)"
proof -
  let ?s3 = "scenario\<lparr>num_phases := 3\<rparr>"
  let ?s1 = "scenario\<lparr>num_phases := 1\<rparr>"
  have v3: "valid_input ?s3"
    using valid_scenario by (simp add: valid_input_def)
  have v1: "valid_input ?s1"
    using valid_scenario by (simp add: valid_input_def)
  from compute_returns [OF v3] obtain r where r: "compute ?s3 = Inr r" ..
  note f = compute_Inr_fields [OF r]
  have pcv: "phase_contract_value r = Finite (7158278826666667 / 67108864)"
    using f(3) by (simp add: scenario_ints float_eval)
  have avp: "apg_value_phased r = Finite (2863311530666667 / 67108864)"
    by (simp add: f(4) pcv scenario_floats float_eval)
  have an: "apg_annual_cost_phased r = Finite (1832519379626667 / 4294967296)"
    by (simp add: f(15) avp scenario_floats float_eval)
  have d: "apg_duration_phased r = Finite (1 / 4)"
    using f(8) by (simp add: scenario_ints float_eval)
  have pp: "apg_cost_per_phase r = Finite (1832519379626667 / 17179869184)"
    by (simp add: f(16) an d float_eval)
  have tot: "apg_total_cost_phased r = Finite (5497558138880001 / 17179869184)"
    using f(19) by (simp add: pp float_eval)
  have c1: "float_mul (Finite (total_contract_value scenario))
      (Finite (advance_payment_percent_orig scenario)) = Finite 128000000"
    by (simp add: scenario_ints scenario_floats float_eval)
  have c2: "float_mul (Finite 128000000) (Finite (bank_fee_rate scenario)) = Finite 1280000"
    by (simp add: scenario_floats float_eval)
  have c3: "float_mul (Finite 1280000) (Finite (1 / 4)) = Finite 320000"
    by (simp add: float_eval)
  have closed: "float_mul (float_mul (float_mul (Finite (total_contract_value scenario))
          (Finite (advance_payment_percent_orig scenario))) (Finite (bank_fee_rate scenario)))
        (apg_duration_phased r) = Finite 320000"
    by (simp only: c1 c2 c3 d)
  have ne: "apg_total_cost_phased r \<noteq>
        float_mul (float_mul (float_mul (Finite (total_contract_value scenario))
            (Finite (advance_payment_percent_orig scenario))) (Finite (bank_fee_rate scenario)))
          (apg_duration_phased r)"
    unfolding closed tot by simp
  from compute_returns [OF v1] obtain r1 where r1: "compute ?s1 = Inr r1" ..
  note g = compute_Inr_fields [OF r1]
  have pcv1: "phase_contract_value r1 = Finite 320000000"
    using g(3) by (simp add: scenario_ints float_eval)
  have avp1: "apg_value_phased r1 = Finite 128000000"
    by (simp add: g(4) pcv1 scenario_floats float_eval)
  have an1: "apg_annual_cost_phased r1 = Finite 1280000"
    by (simp add: g(15) avp1 scenario_floats float_eval)
  have d1: "apg_duration_phased r1 = Finite (1 / 4)"
    using g(8) by (simp add: scenario_ints float_eval)
  have pp1: "apg_cost_per_phase r1 = Finite 320000"
    by (simp add: g(16) an1 d1 float_eval)
  have tot1: "apg_total_cost_phased r1 = Finite 320000"
    using g(19) by (simp add: pp1 float_eval)
  from v3 r tot closed ne r1 tot1 show ?thesis by blast
qed

text \<open>
  With 5 phases the cancellation is not exact either: on a contract value of 320,000,000,
  an advance payment of 0.25, a bank fee rate of 0.05 and one month of phased construction,
  apg\_total\_cost\_phased is 333333.33333333326 and the closed form 333333.3333333333.
\<close>

lemma phased_totals_five_phases:
  "valid_input (scenario\<lparr>advance_payment_percent_orig := 1 / 4, num_phases := 5,
      construction_duration_phased := 1, bank_fee_rate := round53 (1 / 20)\<rparr>) \<and>
   (\<exists>r. compute (scenario\<lparr>advance_payment_percent_orig := 1 / 4, num_phases := 5,
        construction_duration_phased := 1, bank_fee_rate := round53 (1 / 20)\<rparr>) = Inr r \<and>
      apg_total_cost_phased r = Finite (1431655765333333 / 4294967296) \<and>
      float_mul (float_mul (float_mul (Finite 320000000) (Finite (1 / 4)))
          (Finite (round53 (1 / 20))))
        (apg_duration_phased r) = Finite (5726623061333333 / 17179869184))"
proof -
  let ?s5 = "scenario\<lparr>advance_payment_percent_orig := 1 / 4, num_phases := 5,
      construction_duration_phased := 1, bank_fee_rate := round53 (1 / 20)\<rparr>"
  have rate: "round53 (1 / 20) = 3602879701896397 / 72057594037927936"
    by (simp add: round53_eval)
  have v: "valid_input ?s5"
    by (simp add: valid_input_def rate scenario_floats scenario_ints)
  from compute_returns [OF v] obtain r where r: "compute ?s5 = Inr r" ..
  note f = compute_Inr_fields [OF r]
  have pcv: "phase_contract_value r = Finite 64000000"
    using f(3) by (simp add: scenario_ints float_eval)
  have avp: "apg_value_phased r = Finite 16000000"
    by (simp add: f(4) pcv float_eval)
  have an: "apg_annual_cost_phased r = Finite 800000"
    by (simp add: f(15) avp rate float_eval)
  have d: "apg_duration_phased r = Finite (6004799503160661 / 72057594037927936)"
    using f(8) by (simp add: float_eval)
  have pp: "apg_cost_per_phase r = Finite (2290649224533333 / 34359738368)"
    by (simp add: f(16) an d float_eval)
  have tot: "apg_total_cost_phased r = Finite (1431655765333333 / 4294967296)"
    using f(19) by (simp add: pp float_eval)
  have c1: "float_mul (Finite 320000000) (Finite (1 / 4)) = Finite 80000000"
    by (simp add: float_eval)
  have c2: "float_mul (Finite 80000000) (Finite (3602879701896397 / 72057594037927936)) =
      Finite 4000000"
    by (simp add: float_eval)
  have c3: "float_mul (Finite 4000000) (Finite (6004799503160661 / 72057594037927936)) =
      Finite (5726623061333333 / 17179869184)"
    by (simp add: float_eval)
  have closed: "float_mul (float_mul (float_mul (Finite 320000000) (Finite (1 / 4)))
          (Finite (round53 (1 / 20))))
        (apg_duration_phased r) = Finite (5726623061333333 / 17179869184)"
    by (simp only: c1 rate c2 d c3)
  from v r tot closed show ?thesis by blast
qed

text \<open>
  Nor is it exact for 2 phases among the subnormal numbers, which is why the amended
  statement bounds the contract value from below: on a contract value of
  \<open>2024 * 2 powi (- 1074)\<close> (the float 1e-320), the percentages and the rate of the
  scenario, 2 phases and one month of phased construction, apg\_total\_cost\_phased is 0.0
  and the closed form is \<open>2 powi (- 1074)\<close>, the smallest positive float.
\<close>

lemma phased_totals_underflow:
  "valid_input (scenario\<lparr>total_contract_value := 2024 * 2 powi (emin - 52), num_phases := 2,
      construction_duration_phased := 1\<rparr>) \<and>
   is_float (2024 * 2 powi (emin - 52)) \<and>
   (\<exists>r. compute (scenario\<lparr>total_contract_value := 2024 * 2 powi (emin - 52), num_phases := 2,
        construction_duration_phased := 1\<rparr>) = Inr r \<and>
      apg_total_cost_phased r = Finite 0 \<and>
      float_mul (float_mul (float_mul (Finite (2024 * 2 powi (emin - 52)))
          (Finite (advance_payment_percent_orig scenario))) (Finite (bank_fee_rate scenario)))
        (apg_duration_phased r) = Finite (2 powi (emin - 52)))"
proof -
  define q where "q = (2::real) powi (emin - 52)"
  let ?s = "scenario\<lparr>total_contract_value := 2024 * q, num_phases := 2,
      construction_duration_phased := 1\<rparr>"
  have qpos: "0 < q" by (simp add: q_def pow2_pos)
  note sub = round64_subnormal_eval [folded q_def]
  have v: "valid_input ?s"
    unfolding valid_input_def using qpos by (simp add: scenario_floats scenario_ints)
  have fl: "is_float (2024 * q)"
    unfolding is_float_def using sub [of 2024] by (simp add: round_half_even_def)
  from compute_returns [OF v] obtain r where r: "compute ?s = Inr r" ..
  note f = compute_Inr_fields [OF r]
  have two: "float_truediv_int (Finite a) 2 = Inr (round64 (a / 2))" for a
    using float_truediv_int_phases [of 2 a] by simp
  have "phase_contract_value r = round64 (1012 * q)"
    using f(3) by (simp add: two)
  then have pcv: "phase_contract_value r = Finite (1012 * q)"
    using sub [of 1012] by (simp add: round_half_even_def)
  have "apg_value_phased r = round64 (1012 * (3602879701896397 / 9007199254740992) * q)"
    by (simp add: f(4) pcv scenario_floats)
  then have avp: "apg_value_phased r = Finite (405 * q)"
    using sub [of "1012 * (3602879701896397 / 9007199254740992)"]
    by (simp add: round_half_even_def)
  have "apg_annual_cost_phased r =
      round64 (405 * (5764607523034235 / 576460752303423488) * q)"
    by (simp add: f(15) avp scenario_floats)
  then have an: "apg_annual_cost_phased r = Finite (4 * q)"
    using sub [of "405 * (5764607523034235 / 576460752303423488)"]
    by (simp add: round_half_even_def)
  have d: "apg_duration_phased r = Finite (6004799503160661 / 72057594037927936)"
    using f(8) by (simp add: float_eval)
  have "apg_cost_per_phase r = round64 (4 * (6004799503160661 / 72057594037927936) * q)"
    by (simp add: f(16) an d)
  then have pp: "apg_cost_per_phase r = Finite 0"
    using sub [of "4 * (6004799503160661 / 72057594037927936)"]
    by (simp add: round_half_even_def)
  have tot: "apg_total_cost_phased r = Finite 0"
    using f(19) float_mul_int_phases [of 2 "Finite 0"] by (simp add: pp round64_zero)
  have "float_mul (Finite (2024 * q)) (Finite (advance_payment_percent_orig scenario)) =
      round64 (2024 * (3602879701896397 / 9007199254740992) * q)"
    by (simp add: scenario_floats)
  then have c1: "float_mul (Finite (2024 * q)) (Finite (advance_payment_percent_orig scenario)) =
      Finite (810 * q)"
    using sub [of "2024 * (3602879701896397 / 9007199254740992)"]
    by (simp add: round_half_even_def)
  have "float_mul (Finite (810 * q)) (Finite (bank_fee_rate scenario)) =
      round64 (810 * (5764607523034235 / 576460752303423488) * q)"
    by (simp add: scenario_floats)
  then have c2: "float_mul (Finite (810 * q)) (Finite (bank_fee_rate scenario)) = Finite (8 * q)"
    using sub [of "810 * (5764607523034235 / 576460752303423488)"]
    by (simp add: round_half_even_def)
  have "float_mul (Finite (8 * q)) (Finite (6004799503160661 / 72057594037927936)) =
      round64 (8 * (6004799503160661 / 72057594037927936) * q)"
    by simp
  then have c3: "float_mul (Finite (8 * q)) (Finite (6004799503160661 / 72057594037927936)) =
      Finite q"
    using sub [of "8 * (6004799503160661 / 72057594037927936)"]
    by (simp add: round_half_even_def)
  have closed: "float_mul (float_mul (float_mul (Finite (2024 * q))
          (Finite (advance_payment_percent_orig scenario))) (Finite (bank_fee_rate scenario)))
        (apg_duration_phased r) = Finite q"
    by (simp only: c1 c2 d c3)
  from v fl r tot closed show ?thesis unfolding q_def by blast
qed

text \<open>
  C10. credit\_line\_savings can be negative: there is a valid input, with one phase and a
  positive phased performance guarantee percentage, on which the block returns with
  credit\_line\_phased above credit\_line\_orig and credit\_line\_savings below zero.
\<close>

theorem credit_line_savings_can_be_negative: "\<exists>p r. valid_input p \<and> num_phases p = 1 \<and> 0 < pg_percent_phased p \<and>
   compute p = Inr r \<and> float_lt (credit_line_orig r) (credit_line_phased r) \<and>
   float_lt (credit_line_savings r) (Finite 0)"
proof -
  let ?s1 = "scenario\<lparr>num_phases := 1\<rparr>"
  have v: "valid_input ?s1"
    using valid_scenario by (simp add: valid_input_def)
  have pg: "0 < pg_percent_phased ?s1" by (simp add: scenario_floats)
  from compute_returns [OF v] obtain r where r: "compute ?s1 = Inr r" ..
  note g = compute_Inr_fields [OF r]
  have pcv: "phase_contract_value r = Finite 320000000"
    using g(3) by (simp add: scenario_ints float_eval)
  have avp: "apg_value_phased r = Finite 128000000"
    by (simp add: g(4) pcv scenario_floats float_eval)
  have pvp: "pg_value_phased r = Finite 32000000"
    by (simp add: g(5) pcv scenario_floats float_eval)
  have clo: "credit_line_orig r = Finite 128000000"
    by (simp add: g(25) g(1) scenario_ints scenario_floats float_eval)
  have clp: "credit_line_phased r = Finite 160000000"
    by (simp add: g(26) avp pvp float_eval)
  have cls: "credit_line_savings r = Finite (- 32000000)"
    by (simp add: g(27) clo clp float_eval)
  have "num_phases ?s1 = 1" by simp
  with v pg r clo clp cls show ?thesis
    by (intro exI [of _ ?s1] exI [of _ r]) simp
qed

end
